theory Spec2Isabelle
  imports Main "HOL-Library.AList" "HOL-Library.List_Lexorder" "HOL-Library.Multiset"
begin

section \<open>Python values\<close>

text \<open>
  A Python \<open>str\<close> is a sequence of Unicode code points; its length and its slices count
  code points.  A string is therefore modelled as a list of code points, and an ASCII
  literal of the source is written \<open>lit ''...''\<close>.
\<close>

type_synonym pystr = "nat list"

definition lit :: "string \<Rightarrow> pystr" where
  "lit s = map of_char s"

text \<open>\<open>str(n)\<close> of an integer: its decimal digits, with a minus sign when negative.\<close>

function str_nat :: "nat \<Rightarrow> pystr" where
  "str_nat n = (if n < 10 then [48 + n] else str_nat (n div 10) @ [48 + n mod 10])"
  by pat_completeness auto
termination
  by (relation "measure (\<lambda>n. n)") auto

declare str_nat.simps [simp del]

definition str_int :: "int \<Rightarrow> pystr" where
  "str_int i = (if i < 0 then 45 # str_nat (nat (- i)) else str_nat (nat i))"

text \<open>
  The slice \<open>xs[:k]\<close>: the first \<open>k\<close> elements for \<open>k \<ge> 0\<close>, and all but the last
  \<open>-k\<close> elements for a negative \<open>k\<close>.  The slice \<open>xs[k:]\<close> for \<open>k \<ge> 0\<close> is \<open>drop k xs\<close>.
\<close>

definition slice_to :: "int \<Rightarrow> 'a list \<Rightarrow> 'a list" where
  "slice_to k xs = (if 0 \<le> k then take (nat k) xs else take (nat (int (length xs) + k)) xs)"

text \<open>
  Exceptions, as values.  \<open>ValueError\<close> and \<open>RuntimeError\<close> carry their message.
\<close>

datatype error =
    AttributeError
  | OSError
  | RuntimeError pystr
  | FileNotFoundError
  | DecodeError
  | ExportError
  | TranscriptionError
  | APIError
  | StopIteration
  | TypeError
  | ValidationError
  | NotionError
  | ValueError pystr

section \<open>state.py: the processing ledger\<close>

text \<open>
  The ledger is a Python dict from \<open>str(episode_number)\<close> to a record of three strings.
  A dict keeps its keys in insertion order and \<open>d[k] = v\<close> replaces the value of an
  existing key in place or appends a new key: this is \<open>AList.update\<close> on an association
  list.  The JSON document of the state file is the list of the key/value pairs of its
  top-level object; \<open>json.load\<close> builds the dict from them pair by pair (a repeated key
  keeps its last value), and \<open>json.dump\<close> writes the pairs of the dict in order.
\<close>

record ledger_entry =
  ledger_title :: pystr
  ledger_notion_url :: pystr
  ledger_processed_at :: pystr

type_synonym ledger = "(pystr \<times> ledger_entry) list"

definition json_load :: "(pystr \<times> ledger_entry) list \<Rightarrow> ledger" where
  "json_load doc = foldl (\<lambda>d (k, v). AList.update k v d) [] doc"

definition json_dump :: "ledger \<Rightarrow> (pystr \<times> ledger_entry) list" where
  "json_dump d = d"

text \<open>
  A \<open>StateManager\<close> object: \<open>state\<close> is the attribute \<open>_state\<close>, and \<open>state_file\<close> is the
  content of the file at the path \<open>self.state_file\<close> (\<open>None\<close> when the file does not exist).
\<close>

record StateManager =
  state_file :: "(pystr \<times> ledger_entry) list option"
  state :: ledger

definition load :: "(pystr \<times> ledger_entry) list option \<Rightarrow> ledger" where
  "load f = (case f of Some doc \<Rightarrow> json_load doc | None \<Rightarrow> [])"

definition StateManager_init :: "(pystr \<times> ledger_entry) list option \<Rightarrow> StateManager" where
  "StateManager_init f = \<lparr>state_file = f, state = load f\<rparr>"

definition is_processed :: "StateManager \<Rightarrow> int \<Rightarrow> bool" where
  "is_processed sm episode_number = (str_int episode_number \<in> set (map fst (state sm)))"

definition save :: "StateManager \<Rightarrow> StateManager" where
  "save sm = sm\<lparr>state_file := Some (json_dump (state sm))\<rparr>"

text \<open>\<open>utcnow\<close> is the value of \<open>datetime.utcnow().isoformat()\<close> at the call.\<close>

definition mark_processed :: "pystr \<Rightarrow> StateManager \<Rightarrow> int \<Rightarrow> pystr \<Rightarrow> pystr \<Rightarrow> StateManager" where
  "mark_processed utcnow sm episode_number notion_url episode_title =
     save (sm\<lparr>state := AList.update (str_int episode_number)
       \<lparr>ledger_title = episode_title, ledger_notion_url = notion_url, ledger_processed_at = utcnow\<rparr>
       (state sm)\<rparr>)"

definition get_processed_count :: "StateManager \<Rightarrow> nat" where
  "get_processed_count sm = length (state sm)"

text \<open>A \<open>StateManager\<close> freshly constructed over the file of another one.\<close>

definition reloaded :: "StateManager \<Rightarrow> StateManager" where
  "reloaded sm = StateManager_init (state_file sm)"

section \<open>models.py and feed.py: the episode directory\<close>

text \<open>
  A \<open>datetime\<close> is modelled by the list of its components (year, month, day, hour,
  minute, second, ...); datetimes of one time zone compare as these lists do,
  lexicographically.  \<open>published_parsed\<close> of a feed entry is a \<open>time.struct_time\<close>, a
  tuple of nine integers, or \<open>None\<close>; Python compares tuples lexicographically, a proper
  prefix being smaller, which is the order of \<open>HOL-Library.List_Lexorder\<close> on lists.
\<close>

type_synonym datetime = "int list"

record Episode =
  number :: int
  title :: pystr
  published :: datetime
  audio_url :: pystr
  description :: pystr
  podcast_name :: pystr

text \<open>
  The parts of a parsed feed that \<open>parse_feed\<close> reads.  A field that \<open>.get\<close> may find
  missing is an option.
\<close>

record enclosure =
  enc_type :: "pystr option"
  enc_href :: "pystr option"
  enc_url :: "pystr option"

record link =
  link_rel :: "pystr option"
  link_href :: "pystr option"

record entry =
  entry_title :: "pystr option"
  published_parsed :: "int list option"
  summary :: "pystr option"
  enclosures :: "enclosure list"
  links :: "link list"

record feed =
  bozo :: bool
  entries :: "entry list"
  feed_title :: "pystr option"

text \<open>Truthiness of an optional sequence: \<open>None\<close> and the empty sequence are false.\<close>

definition truthy :: "'a list option \<Rightarrow> bool" where
  "truthy v = (case v of None \<Rightarrow> False | Some s \<Rightarrow> s \<noteq> [])"

text \<open>\<open>a or b\<close>\<close>

definition py_or :: "'a list option \<Rightarrow> 'a list option \<Rightarrow> 'a list option" where
  "py_or a b = (if truthy a then a else b)"

text \<open>\<open>d.get(key, default)\<close> on a field that may be missing\<close>

definition get_default :: "'a option \<Rightarrow> 'a \<Rightarrow> 'a" where
  "get_default v d = (case v of None \<Rightarrow> d | Some x \<Rightarrow> x)"

definition startswith :: "pystr \<Rightarrow> pystr \<Rightarrow> bool" where
  "startswith s p = (take (length p) s = p)"

text \<open>The two loops of \<open>_extract_audio_url\<close>.\<close>

fun enclosure_loop :: "enclosure list \<Rightarrow> pystr option option" where
  "enclosure_loop [] = None"
| "enclosure_loop (enc # rest) =
     (if startswith (get_default (enc_type enc) []) (lit ''audio/'')
      then Some (py_or (enc_href enc) (enc_url enc))
      else enclosure_loop rest)"

fun link_loop :: "link list \<Rightarrow> pystr option" where
  "link_loop [] = None"
| "link_loop (l # rest) =
     (if link_rel l = Some (lit ''enclosure'')
      then (if truthy (link_href l) then link_href l else link_loop rest)
      else link_loop rest)"

definition extract_audio_url :: "entry \<Rightarrow> pystr option" where
  "extract_audio_url e =
     (case enclosure_loop (enclosures e) of
        Some r \<Rightarrow> r
      | None \<Rightarrow> link_loop (links e))"

text \<open>
  An entry has a resolvable audio locator when \<open>_extract_audio_url\<close> returns a value
  that \<open>parse_feed\<close> takes as true.
\<close>

definition has_audio :: "entry \<Rightarrow> bool" where
  "has_audio e = truthy (extract_audio_url e)"

text \<open>
  The constructor \<open>datetime(year, month, day, hour, minute, second, tzinfo=timezone.utc)\<close>,
  called with a list of positional arguments: without a year, a month and a day it raises
  \<open>TypeError\<close>; hour, minute and second are 0 when they are not given; and it raises
  \<open>ValueError\<close> for the first component that lies outside its range, the year outside 1 to
  9999 and the day outside the month among them.
\<close>

definition is_leap :: "int \<Rightarrow> bool" where
  "is_leap y = (y mod 4 = 0 \<and> (y mod 100 \<noteq> 0 \<or> y mod 400 = 0))"

definition days_in_month :: "int \<Rightarrow> int \<Rightarrow> int" where
  "days_in_month y m =
     (if m = 2 then (if is_leap y then 29 else 28)
      else if m = 4 \<or> m = 6 \<or> m = 9 \<or> m = 11 then 30 else 31)"

definition datetime_check :: "int list \<Rightarrow> pystr option" where
  "datetime_check c =
     (if c ! 0 < 1 \<or> 9999 < c ! 0 then Some (lit ''year '' @ str_int (c ! 0) @ lit '' is out of range'')
      else if c ! 1 < 1 \<or> 12 < c ! 1 then Some (lit ''month must be in 1..12'')
      else if c ! 2 < 1 \<or> days_in_month (c ! 0) (c ! 1) < c ! 2
      then Some (lit ''day is out of range for month'')
      else if c ! 3 < 0 \<or> 23 < c ! 3 then Some (lit ''hour must be in 0..23'')
      else if c ! 4 < 0 \<or> 59 < c ! 4 then Some (lit ''minute must be in 0..59'')
      else if c ! 5 < 0 \<or> 59 < c ! 5 then Some (lit ''second must be in 0..59'')
      else None)"

definition datetime_new :: "int list \<Rightarrow> error + datetime" where
  "datetime_new args =
     (if length args < 3 then Inl TypeError
      else (let c = args @ replicate (6 - length args) 0
            in case datetime_check c of Some m \<Rightarrow> Inl (ValueError m) | None \<Rightarrow> Inr c))"

text \<open>
  \<open>_parse_date\<close>: \<open>datetime(*published_parsed[:6], tzinfo=timezone.utc)\<close>, or
  \<open>datetime.now(tz=timezone.utc)\<close>, whose value is \<open>now\<close>.
\<close>

definition parse_date :: "datetime \<Rightarrow> int list option \<Rightarrow> error + datetime" where
  "parse_date now pp = (if truthy pp then datetime_new (take 6 (the pp)) else Inr now)"

text \<open>
  \<open>_strip_html\<close>: \<open>re.sub(r"<[^>]+>", "", text).strip()\<close>.  The pattern matches at a
  \<open><\<close> exactly when the next \<open>>\<close> after it exists and is not the very next character;
  the match then ends at that \<open>>\<close>.  \<open>strip()\<close> removes the characters of
  \<open>str.isspace\<close> from both ends.
\<close>

function remove_tags :: "pystr \<Rightarrow> pystr" where
  "remove_tags [] = []"
| "remove_tags (c # cs) =
     (if c = 60 \<and> takeWhile (\<lambda>x. x \<noteq> 62) cs \<noteq> [] \<and> dropWhile (\<lambda>x. x \<noteq> 62) cs \<noteq> []
      then remove_tags (tl (dropWhile (\<lambda>x. x \<noteq> 62) cs))
      else c # remove_tags cs)"
  by pat_completeness auto
termination
proof (relation "measure length")
  show "wf (measure length)" by simp
next
  fix c :: nat and cs :: pystr
  have "length (tl (dropWhile (\<lambda>x. x \<noteq> 62) cs)) \<le> length cs"
    using length_dropWhile_le [of "\<lambda>x. x \<noteq> 62" cs] by simp
  then show "(tl (dropWhile (\<lambda>x. x \<noteq> 62) cs), c # cs) \<in> measure length" by simp
next
  fix c :: nat and cs :: pystr
  show "(cs, c # cs) \<in> measure length" by simp
qed

definition isspace :: "nat \<Rightarrow> bool" where
  "isspace c = ((9 \<le> c \<and> c \<le> 13) \<or> (28 \<le> c \<and> c \<le> 32) \<or> c = 133 \<or> c = 160 \<or> c = 5760
     \<or> (8192 \<le> c \<and> c \<le> 8202) \<or> c = 8232 \<or> c = 8233 \<or> c = 8239 \<or> c = 8287 \<or> c = 12288)"

definition strip :: "pystr \<Rightarrow> pystr" where
  "strip s = rev (dropWhile isspace (rev (dropWhile isspace s)))"

definition strip_html :: "pystr \<Rightarrow> pystr" where
  "strip_html text = strip (remove_tags text)"

text \<open>The key of the sort: \<open>x[0].get("published_parsed") or (0,)\<close>.\<close>

definition sort_key_of :: "entry \<times> pystr \<Rightarrow> int list" where
  "sort_key_of x = (if truthy (published_parsed (fst x)) then the (published_parsed (fst x)) else [0])"

definition entries_with_audio :: "entry list \<Rightarrow> (entry \<times> pystr) list" where
  "entries_with_audio es =
     concat (map (\<lambda>e. if truthy (extract_audio_url e) then [(e, the (extract_audio_url e))] else []) es)"

text \<open>
  The construction of one \<open>Episode\<close> in the second loop of \<open>parse_feed\<close>: it raises what
  \<open>_parse_date\<close> raises.
\<close>

definition make_episode :: "datetime \<Rightarrow> pystr \<Rightarrow> nat \<times> entry \<times> pystr \<Rightarrow> error + Episode" where
  "make_episode now name x =
     (case x of (i, e, url) \<Rightarrow>
       (case parse_date now (published_parsed e) of
          Inl err \<Rightarrow> Inl err
        | Inr p \<Rightarrow>
            Inr \<lparr>number = int i,
                 title = get_default (entry_title e) (lit ''Untitled''),
                 published = p,
                 audio_url = url,
                 description = strip_html (get_default (summary e) []),
                 podcast_name = name\<rparr>))"

text \<open>The loop \<open>for i, (entry, audio_url) in enumerate(entries_with_audio, start=1)\<close>.\<close>

fun episode_loop ::
    "datetime \<Rightarrow> pystr \<Rightarrow> (nat \<times> entry \<times> pystr) list \<Rightarrow> Episode list \<Rightarrow> error + Episode list" where
  "episode_loop now name [] episodes = Inr episodes"
| "episode_loop now name (x # rest) episodes =
     (case make_episode now name x of
        Inl err \<Rightarrow> Inl err
      | Inr ep \<Rightarrow> episode_loop now name rest (episodes @ [ep]))"

text \<open>
  \<open>parse_feed\<close>, on the feed that \<open>feedparser.parse(url)\<close> returned.  Python's \<open>list.sort\<close>
  is stable, as \<open>sort_key\<close> is.  No exception is handled: what the construction of an
  episode raises leaves \<open>parse_feed\<close>.
\<close>

definition parse_feed :: "datetime \<Rightarrow> feed \<Rightarrow> error + Episode list" where
  "parse_feed now f =
     (if bozo f \<and> entries f = [] then Inr []
      else episode_loop now (get_default (feed_title f) (lit ''Unknown Podcast''))
             (enumerate 1 (sort_key sort_key_of (entries_with_audio (entries f)))) [])"

text \<open>
  The resolution policy in the words of the specification: an enclosure whose declared
  media type begins with \<open>audio/\<close> is preferred, and its location is the locator; the
  fallback, for an entry with no such enclosure, is a link marked as an enclosure that
  carries a location; otherwise the entry has no audio.  An entry has a resolvable audio
  locator when the policy gives it a non-empty one.
\<close>

definition policy_locator :: "entry \<Rightarrow> pystr option" where
  "policy_locator e =
     (case find (\<lambda>enc. startswith (get_default (enc_type enc) []) (lit ''audio/'')) (enclosures e) of
        Some enc \<Rightarrow> py_or (enc_href enc) (enc_url enc)
      | None \<Rightarrow>
          (case find (\<lambda>l. link_rel l = Some (lit ''enclosure'') \<and> truthy (link_href l)) (links e) of
             Some l \<Rightarrow> link_href l
           | None \<Rightarrow> None))"

definition resolvable :: "entry \<Rightarrow> bool" where
  "resolvable e = truthy (policy_locator e)"

section \<open>JSON values\<close>

text \<open>
  The values of a decoded JSON document.  An object is given by the items of its dict.
\<close>

datatype json =
    JNull
  | JBool bool
  | JNum int
  | JStr pystr
  | JArr "json list"
  | JObj "(pystr \<times> json) list"

text \<open>
  A content block of the extraction collaborator's response: \<open>b.type\<close> is \<open>"text"\<close> or
  \<open>"tool_use"\<close>, and a \<open>tool_use\<close> block carries the dict \<open>b.input\<close>.
\<close>

datatype content_block =
    Text pystr
  | ToolUse "(pystr \<times> json) list"

section \<open>audio.py: audio acquisition\<close>

text \<open>
  The files that the pipeline names: \<open>Dest temp_dir n ext\<close> is the download
  \<open>temp_dir / f"episode_{n}{ext}"\<close>, and \<open>ChunkPath p i\<close> is the chunk
  \<open>f"{base}_chunk{i:03d}.mp3"\<close> written beside the file \<open>p\<close>, where \<open>base\<close> is \<open>p\<close> without
  its suffix.  A chunk name is never the name of the file it was cut from, and the chunks
  of one file have distinct names.  (The chunks of two files that differ only in their
  suffix are kept apart here; nothing below depends on them.)
\<close>

datatype path =
    Dest pystr int pystr
  | ChunkPath path nat

text \<open>
  A file: its size in bytes and, for a chunk that pydub exported, the interval
  (start, end) in milliseconds of the decoded audio that it holds.
\<close>

record audio_file =
  st_size :: nat
  audio_span :: "(nat \<times> nat) option"

type_synonym filesystem = "path \<Rightarrow> audio_file option"

text \<open>
  What one download attempt meets: the whole body arrives (its size in bytes); the
  transfer is interrupted by a connection error or a chunked-encoding error of
  \<open>requests\<close>, before the file is opened or after some bytes were written to it; or
  another exception is raised (\<open>raise_for_status\<close>, a timeout, a write error), likewise.
\<close>

datatype attempt =
    Complete nat
  | Interrupted "nat option"
  | OtherFailure "nat option"

text \<open>
  The behaviour of the collaborators and of the libraries during the processing of one
  episode: everything that the code receives from outside.
  \<^item> \<open>mkdir d\<close>: whether \<open>Path(d).mkdir(parents=True, exist_ok=True)\<close> returns; it raises
    \<open>OSError\<close> when \<open>d\<close> or one of its parents is a file, or cannot be created;
  \<^item> \<open>http_get k\<close>: what download attempt \<open>k\<close> (1, 2, 3) meets;
  \<^item> \<open>url_suffix url\<close>: \<open>Path(url.split("?")[0]).suffix\<close>;
  \<^item> \<open>pydub_installed\<close>: whether \<open>from pydub import AudioSegment\<close> succeeds;
  \<^item> \<open>from_file p\<close>: \<open>len(AudioSegment.from_file(p))\<close> in milliseconds, or \<open>None\<close> when
    decoding raises;
  \<^item> \<open>export i\<close>: the size of the file that the export of chunk \<open>i\<close> writes, or \<open>None\<close>
    when it raises, and then \<open>export_leftover i\<close> is the size of the file that the failed
    export leaves (\<open>None\<close>: no file);
  \<^item> \<open>whisper p\<close>: the text of the transcription of the file \<open>p\<close>, or \<open>None\<close> when the
    call raises;
  \<^item> \<open>claude message\<close>: the content blocks of the response to the user message, or
    \<open>None\<close> when the call raises;
  \<^item> \<open>databases_update\<close>: the property names in the response of the schema update, or
    \<open>None\<close> when it raises; \<open>pages_create\<close>: the \<open>id\<close> and the \<open>url\<close> of the created page, or
    \<open>None\<close> when the call raises; \<open>children_append i\<close>: whether the append call for the
    batch at offset \<open>i\<close> returns;
  \<^item> \<open>clean_title\<close>: the regular-expression substitution of \<open>_clean_title\<close>;
  \<^item> \<open>today\<close>: the date of \<open>datetime.now(tz=timezone.utc)\<close>; \<open>utcnow\<close>:
    \<open>datetime.utcnow().isoformat()\<close>.
\<close>

record env =
  mkdir :: "pystr \<Rightarrow> bool"
  http_get :: "nat \<Rightarrow> attempt"
  url_suffix :: "pystr \<Rightarrow> pystr"
  pydub_installed :: bool
  from_file :: "path \<Rightarrow> nat option"
  export :: "nat \<Rightarrow> nat option"
  export_leftover :: "nat \<Rightarrow> nat option"
  whisper :: "path \<Rightarrow> pystr option"
  claude :: "pystr \<Rightarrow> content_block list option"
  databases_update :: "pystr list option"
  pages_create :: "(pystr \<times> pystr) option"
  children_append :: "nat \<Rightarrow> bool"
  clean_title :: "pystr \<Rightarrow> pystr"
  today :: "int list"
  utcnow :: pystr

definition WHISPER_MAX_BYTES :: nat where
  "WHISPER_MAX_BYTES = 24 * 1024 * 1024"

definition DOWNLOAD_RETRIES :: nat where
  "DOWNLOAD_RETRIES = 3"

definition written :: "nat \<Rightarrow> audio_file" where
  "written n = \<lparr>st_size = n, audio_span = None\<rparr>"

definition partial_file :: "path \<Rightarrow> nat option \<Rightarrow> filesystem \<Rightarrow> filesystem" where
  "partial_file p w fs = (case w of None \<Rightarrow> fs | Some n \<Rightarrow> fs(p \<mapsto> written n))"

text \<open>
  The loop \<open>for attempt in range(1, _DOWNLOAD_RETRIES + 1)\<close>.  An exception raised in the
  \<open>try\<close> block reaches the clause
  \<open>except (requests.ConnectionError, requests.ChunkedEncodingError)\<close>, whose tuple is
  evaluated then: the module \<open>requests\<close> has no attribute \<open>ChunkedEncodingError\<close> (the class
  is \<open>requests.exceptions.ChunkedEncodingError\<close>), so the evaluation raises
  \<open>AttributeError\<close>, which leaves \<open>download_audio\<close>.  Whatever the attempt met, the handler
  is not entered and no further attempt is made.
\<close>

fun download_loop :: "env \<Rightarrow> path \<Rightarrow> nat list \<Rightarrow> filesystem \<Rightarrow> (error + path) \<times> filesystem" where
  "download_loop ev dest [] fs = (Inl (RuntimeError (lit ''Download failed after all retries'')), fs)"
| "download_loop ev dest (attempt # rest) fs =
     (case http_get ev attempt of
        Complete n \<Rightarrow> (Inr dest, (fs(dest := None))(dest \<mapsto> written n))
      | Interrupted w \<Rightarrow> (Inl AttributeError, partial_file dest w (fs(dest := None)))
      | OtherFailure w \<Rightarrow> (Inl AttributeError, partial_file dest w (fs(dest := None))))"

definition download_audio ::
    "env \<Rightarrow> pystr \<Rightarrow> pystr \<Rightarrow> int \<Rightarrow> filesystem \<Rightarrow> (error + path) \<times> filesystem" where
  "download_audio ev url temp_dir episode_number fs =
     (if \<not> mkdir ev temp_dir then (Inl OSError, fs)
      else (let ext = (if url_suffix ev url \<noteq> [] then url_suffix ev url else lit ''.mp3'');
                dest = Dest temp_dir episode_number ext
            in download_loop ev dest [1 ..< DOWNLOAD_RETRIES + 1] fs))"

text \<open>\<open>range(start, stop, step)\<close> for a positive step\<close>

function range_step :: "nat \<Rightarrow> nat \<Rightarrow> nat \<Rightarrow> nat list" where
  "range_step start stop step =
     (if start < stop \<and> 0 < step then start # range_step (start + step) stop step else [])"
  by pat_completeness auto
termination
  by (relation "measure (\<lambda>(start, stop, step). stop - start)") auto

declare range_step.simps [simp del]

definition chunk_ms :: nat where
  "chunk_ms = 10 * 60 * 1000"

text \<open>
  The duration \<open>len\<close> (in milliseconds) divided by ten minutes, rounded up: the number of
  chunks that the specification expects.
\<close>

definition chunk_count :: "nat \<Rightarrow> nat" where
  "chunk_count len = (len + chunk_ms - 1) div chunk_ms"

text \<open>
  The export loop over \<open>enumerate(range(0, len(audio), chunk_ms))\<close>: the chunk
  \<open>audio[start:start + chunk_ms]\<close> holds the audio from \<open>start\<close> to
  \<open>min (start + chunk_ms) (len audio)\<close>.
\<close>

fun export_loop ::
    "env \<Rightarrow> path \<Rightarrow> nat \<Rightarrow> (nat \<times> nat) list \<Rightarrow> path list \<Rightarrow> filesystem
       \<Rightarrow> (error + path list) \<times> filesystem" where
  "export_loop ev base len [] chunks fs = (Inr chunks, fs)"
| "export_loop ev base len ((i, start) # rest) chunks fs =
     (case export ev i of
        None \<Rightarrow> (Inl ExportError, partial_file (ChunkPath base i) (export_leftover ev i) fs)
      | Some n \<Rightarrow>
          export_loop ev base len rest (chunks @ [ChunkPath base i])
            (fs(ChunkPath base i \<mapsto> \<lparr>st_size = n, audio_span = Some (start, min (start + chunk_ms) len)\<rparr>)))"

definition split_audio_if_needed ::
    "env \<Rightarrow> path \<Rightarrow> filesystem \<Rightarrow> (error + path list) \<times> filesystem" where
  "split_audio_if_needed ev audio_path fs =
     (case fs audio_path of
        None \<Rightarrow> (Inl FileNotFoundError, fs)
      | Some f \<Rightarrow>
          if st_size f \<le> WHISPER_MAX_BYTES then (Inr [audio_path], fs)
          else if \<not> pydub_installed ev
          then (Inl (RuntimeError (lit ''pydub is required for audio chunking: pip install pydub'')), fs)
          else (case from_file ev audio_path of
                  None \<Rightarrow> (Inl DecodeError, fs)
                | Some len \<Rightarrow>
                    (case export_loop ev audio_path len (enumerate 0 (range_step 0 len chunk_ms)) [] fs of
                       (Inl e, fs') \<Rightarrow> (Inl e, fs')
                     | (Inr chunks, fs') \<Rightarrow> (Inr chunks, fs'(audio_path := None)))))"

text \<open>\<open>cleanup_audio\<close>: \<open>unlink(missing_ok=True)\<close> on every path.\<close>

definition cleanup_audio :: "path list \<Rightarrow> filesystem \<Rightarrow> filesystem" where
  "cleanup_audio paths fs = foldl (\<lambda>fs p. fs(p := None)) fs paths"

section \<open>transcriber.py\<close>

text \<open>\<open>sep.join(xs)\<close>\<close>

fun join :: "pystr \<Rightarrow> pystr list \<Rightarrow> pystr" where
  "join sep [] = []"
| "join sep [x] = x"
| "join sep (x # y # ys) = x @ sep @ join sep (y # ys)"

text \<open>
  The loop of \<open>transcribe\<close>: each chunk is opened (which raises when the file is missing)
  and sent to the transcription collaborator, in the order of the list.
\<close>

fun transcribe_loop :: "env \<Rightarrow> path list \<Rightarrow> filesystem \<Rightarrow> pystr list \<Rightarrow> error + pystr list" where
  "transcribe_loop ev [] fs transcripts = Inr transcripts"
| "transcribe_loop ev (p # rest) fs transcripts =
     (case fs p of
        None \<Rightarrow> Inl FileNotFoundError
      | Some f \<Rightarrow>
          (case whisper ev p of
             None \<Rightarrow> Inl TranscriptionError
           | Some response \<Rightarrow> transcribe_loop ev rest fs (transcripts @ [response])))"

definition transcribe :: "env \<Rightarrow> path list \<Rightarrow> filesystem \<Rightarrow> error + pystr" where
  "transcribe ev audio_paths fs =
     (case transcribe_loop ev audio_paths fs [] of
        Inl e \<Rightarrow> Inl e
      | Inr transcripts \<Rightarrow> Inr (join [10, 10, 45, 45, 45, 10, 10] transcripts))"

section \<open>extractor.py: insight extraction\<close>

record RecipeEntry =
  name :: pystr
  style :: "pystr option"
  grain_bill :: "pystr list option"
  hop_schedule :: "pystr list option"
  yeast :: "pystr option"
  og :: "pystr option"
  fg :: "pystr option"
  process_notes :: "pystr option"

record BrewingInsights =
  episode_summary :: pystr
  brewing_techniques :: "pystr list"
  recipes :: "RecipeEntry list"
  ingredients_and_products :: "pystr list"
  business_and_marketing :: "pystr list"
  key_takeaways :: "pystr list"

text \<open>
  Validation of a field by the pydantic models: a value of the declared type is taken as
  it is, any other JSON value is refused; an \<open>Optional\<close> field also takes \<open>None\<close>, which
  is its default when the key is missing.
\<close>

fun str_field :: "json \<Rightarrow> pystr option" where
  "str_field (JStr s) = Some s"
| "str_field _ = None"

fun str_items :: "json list \<Rightarrow> pystr list option" where
  "str_items [] = Some []"
| "str_items (x # xs) =
     (case str_field x of
        None \<Rightarrow> None
      | Some s \<Rightarrow> (case str_items xs of None \<Rightarrow> None | Some ss \<Rightarrow> Some (s # ss)))"

fun list_field :: "json \<Rightarrow> pystr list option" where
  "list_field (JArr xs) = str_items xs"
| "list_field _ = None"

definition optional_field :: "(json \<Rightarrow> 'a option) \<Rightarrow> json option \<Rightarrow> 'a option option" where
  "optional_field v x =
     (case x of
        None \<Rightarrow> Some None
      | Some JNull \<Rightarrow> Some None
      | Some j \<Rightarrow> (case v j of None \<Rightarrow> None | Some a \<Rightarrow> Some (Some a)))"

text \<open>
  \<open>RecipeEntry(**r)\<close>: \<open>r\<close> must be a mapping; \<open>name\<close> is required; keys that are not
  fields of the model are ignored.
\<close>

definition make_recipe :: "json \<Rightarrow> error + RecipeEntry" where
  "make_recipe r =
     (case r of
        JObj d \<Rightarrow>
          (case (case map_of d (lit ''name'') of None \<Rightarrow> None | Some j \<Rightarrow> str_field j,
                 optional_field str_field (map_of d (lit ''style'')),
                 optional_field list_field (map_of d (lit ''grain_bill'')),
                 optional_field list_field (map_of d (lit ''hop_schedule'')),
                 optional_field str_field (map_of d (lit ''yeast'')),
                 optional_field str_field (map_of d (lit ''og'')),
                 optional_field str_field (map_of d (lit ''fg'')),
                 optional_field str_field (map_of d (lit ''process_notes''))) of
             (Some n, Some s, Some g, Some h, Some y, Some o1, Some f, Some p) \<Rightarrow>
               Inr \<lparr>name = n, style = s, grain_bill = g, hop_schedule = h, yeast = y,
                    og = o1, fg = f, process_notes = p\<rparr>
           | _ \<Rightarrow> Inl ValidationError)
      | _ \<Rightarrow> Inl TypeError)"

text \<open>
  What \<open>for r in v\<close> iterates over: the items of a list, the characters of a string, the
  keys of a dict; any other value is not iterable.
\<close>

fun iterate :: "json \<Rightarrow> error + json list" where
  "iterate (JArr xs) = Inr xs"
| "iterate (JStr s) = Inr (map (\<lambda>c. JStr [c]) s)"
| "iterate (JObj d) = Inr (map (\<lambda>kv. JStr (fst kv)) d)"
| "iterate _ = Inl TypeError"

fun make_recipes :: "json list \<Rightarrow> error + RecipeEntry list" where
  "make_recipes [] = Inr []"
| "make_recipes (r # rs) =
     (case make_recipe r of
        Inl e \<Rightarrow> Inl e
      | Inr x \<Rightarrow> (case make_recipes rs of Inl e \<Rightarrow> Inl e | Inr xs \<Rightarrow> Inr (x # xs)))"

text \<open>\<open>data.get(key, default)\<close> on the dict of the tool input\<close>

definition dict_get :: "(pystr \<times> json) list \<Rightarrow> string \<Rightarrow> json \<Rightarrow> json" where
  "dict_get data key dflt = (case map_of data (lit key) of None \<Rightarrow> dflt | Some v \<Rightarrow> v)"

text \<open>The part of \<open>extract_insights\<close> after \<open>data = tool_use_block.input\<close>.\<close>

definition build_insights :: "(pystr \<times> json) list \<Rightarrow> error + BrewingInsights" where
  "build_insights data =
     (case iterate (dict_get data ''recipes'' (JArr [])) of
        Inl e \<Rightarrow> Inl e
      | Inr rs \<Rightarrow>
          (case make_recipes rs of
             Inl e \<Rightarrow> Inl e
           | Inr recipes_list \<Rightarrow>
               (case (str_field (dict_get data ''episode_summary'' (JStr [])),
                      list_field (dict_get data ''brewing_techniques'' (JArr [])),
                      list_field (dict_get data ''ingredients_and_products'' (JArr [])),
                      list_field (dict_get data ''business_and_marketing'' (JArr [])),
                      list_field (dict_get data ''key_takeaways'' (JArr []))) of
                  (Some s, Some t, Some i, Some b, Some k) \<Rightarrow>
                    Inr \<lparr>episode_summary = s, brewing_techniques = t, recipes = recipes_list,
                         ingredients_and_products = i, business_and_marketing = b,
                         key_takeaways = k\<rparr>
                | _ \<Rightarrow> Inl ValidationError)))"

fun first_tool_use :: "content_block list \<Rightarrow> (pystr \<times> json) list option" where
  "first_tool_use [] = None"
| "first_tool_use (ToolUse d # rest) = Some d"
| "first_tool_use (Text t # rest) = first_tool_use rest"

definition user_message :: "pystr \<Rightarrow> pystr \<Rightarrow> pystr \<Rightarrow> pystr" where
  "user_message transcript episode_title episode_description =
     lit ''Episode Title: '' @ episode_title @ [10, 10]
     @ lit ''Episode Description:'' @ [10] @ episode_description @ [10, 10]
     @ lit ''Transcript:'' @ [10] @ transcript @ [10, 10]
     @ lit ''Please extract all brewing insights from this podcast episode using the ''
     @ lit ''extract_brewing_insights tool.''"

definition extract_insights :: "env \<Rightarrow> pystr \<Rightarrow> pystr \<Rightarrow> pystr \<Rightarrow> error + BrewingInsights" where
  "extract_insights ev transcript episode_title episode_description =
     (case claude ev (user_message transcript episode_title episode_description) of
        None \<Rightarrow> Inl APIError
      | Some content \<Rightarrow>
          (case first_tool_use content of
             None \<Rightarrow> Inl StopIteration
           | Some data \<Rightarrow> build_insights data))"



section \<open>notion_writer.py: publication\<close>

definition NOTION_TEXT_LIMIT :: nat where
  "NOTION_TEXT_LIMIT = 2000"

definition NOTION_BLOCK_LIMIT :: nat where
  "NOTION_BLOCK_LIMIT = 100"

text \<open>
  A content block as it is submitted; the string of a constructor is the value at
  \<open>rich_text[0].text.content\<close> (for a callout the second string is the emoji of its icon).
\<close>

datatype notion_block =
    Callout pystr pystr
  | Divider
  | Heading2 pystr
  | Heading3 pystr
  | Paragraph pystr
  | BulletedListItem pystr

text \<open>
  A property value as it is submitted: a title and a rich text carry a string at
  \<open>text.content\<close>; a number, a date (the components of the date whose \<open>isoformat()\<close> is
  sent) and a url carry no text object.
\<close>

datatype property_value =
    TitleProp pystr
  | NumberProp int
  | DateProp "int list"
  | RichTextProp pystr
  | UrlProp pystr

text \<open>The calls made on the publication collaborator, in the order they are issued.\<close>

datatype notion_call =
    DatabasesUpdate pystr
  | PagesCreate pystr "(pystr \<times> property_value) list" "notion_block list"
  | BlocksAppend pystr "notion_block list"

definition heading2 :: "pystr \<Rightarrow> notion_block" where
  "heading2 text = Heading2 (take NOTION_TEXT_LIMIT text)"

definition heading3 :: "pystr \<Rightarrow> notion_block" where
  "heading3 text = Heading3 (take NOTION_TEXT_LIMIT text)"

definition paragraph_block :: "pystr \<Rightarrow> notion_block" where
  "paragraph_block text = Paragraph (take NOTION_TEXT_LIMIT text)"

definition callout :: "pystr \<Rightarrow> pystr \<Rightarrow> notion_block" where
  "callout text emoji = Callout (take NOTION_TEXT_LIMIT text) emoji"

definition divider :: notion_block where
  "divider = Divider"

definition bulleted_list :: "pystr list \<Rightarrow> pystr \<Rightarrow> notion_block list" where
  "bulleted_list items empty_text =
     (if items = [] then (if empty_text \<noteq> [] then [paragraph_block empty_text] else [])
      else map (\<lambda>item. BulletedListItem (take NOTION_TEXT_LIMIT item)) items)"

text \<open>The prefix \<open>"  \<bullet> "\<close> of an ingredient line: two spaces, U+2022, a space.\<close>

definition bullet_prefix :: pystr where
  "bullet_prefix = [32, 32, 8226, 32]"

definition recipe_blocks :: "RecipeEntry \<Rightarrow> notion_block list" where
  "recipe_blocks recipe =
     heading3 (name recipe) #
     bulleted_list
       ((if truthy (style recipe) then [lit ''Style: '' @ the (style recipe)] else [])
        @ (if truthy (og recipe) then [lit ''OG: '' @ the (og recipe)] else [])
        @ (if truthy (fg recipe) then [lit ''FG: '' @ the (fg recipe)] else [])
        @ (if truthy (yeast recipe) then [lit ''Yeast: '' @ the (yeast recipe)] else [])
        @ (if truthy (grain_bill recipe)
           then lit ''Grain Bill:'' # map (\<lambda>g. bullet_prefix @ g) (the (grain_bill recipe)) else [])
        @ (if truthy (hop_schedule recipe)
           then lit ''Hop Schedule:'' # map (\<lambda>h. bullet_prefix @ h) (the (hop_schedule recipe)) else [])
        @ (if truthy (process_notes recipe) then [lit ''Process: '' @ the (process_notes recipe)] else []))
       []"

definition build_blocks :: "Episode \<Rightarrow> BrewingInsights \<Rightarrow> notion_block list" where
  "build_blocks episode insights =
     [callout (episode_summary insights) [127866], divider]
     @ [heading2 (lit ''Brewing Techniques'')]
     @ bulleted_list (brewing_techniques insights)
         (lit ''No techniques specifically noted in this episode.'')
     @ [divider]
     @ [heading2 (lit ''Recipes'')]
     @ (if recipes insights \<noteq> [] then concat (map recipe_blocks (recipes insights))
        else [paragraph_block (lit ''No recipes discussed in this episode.'')])
     @ [divider]
     @ [heading2 (lit ''Ingredients & Products Mentioned'')]
     @ bulleted_list (ingredients_and_products insights)
         (lit ''No specific ingredients or products mentioned.'')
     @ [divider]
     @ [heading2 (lit ''Business & Marketing Insights'')]
     @ bulleted_list (business_and_marketing insights)
         (lit ''No business or marketing insights in this episode.'')
     @ [divider]
     @ [heading2 (lit ''Key Takeaways'')]
     @ bulleted_list (key_takeaways insights) (lit ''No standout takeaways noted.'')
     @ [divider]
     @ [heading3 (lit ''Original Episode Description'')]
     @ [paragraph_block (if description episode \<noteq> [] then take NOTION_TEXT_LIMIT (description episode)
                   else lit ''No description available.'')]"

text \<open>
  \<open>_build_properties\<close>.  \<open>clean_title ev\<close> is the regular-expression substitution of
  \<open>_clean_title\<close>, a function from strings to strings; \<open>today ev\<close> is the date of
  \<open>datetime.now(tz=timezone.utc)\<close>.
\<close>

definition build_properties :: "env \<Rightarrow> Episode \<Rightarrow> pystr list \<Rightarrow> (pystr \<times> property_value) list" where
  "build_properties ev episode existing_props =
     foldl (\<lambda>props kv. if fst kv \<in> set existing_props then AList.update (fst kv) (snd kv) props else props)
       [(lit ''Name'',
         TitleProp (take NOTION_TEXT_LIMIT
           (lit ''[Ep. '' @ str_int (number episode) @ lit ''] '' @ clean_title ev (title episode))))]
       [(lit ''Episode Number'', NumberProp (number episode)),
        (lit ''Published Date'', DateProp (take 3 (published episode))),
        (lit ''Podcast Name'', RichTextProp (take NOTION_TEXT_LIMIT (podcast_name episode))),
        (lit ''Audio URL'', UrlProp (audio_url episode)),
        (lit ''Processed At'', DateProp (today ev))]"

text \<open>
  \<open>_ensure_database_properties\<close>: the names of the properties that the schema update
  returned, or no name when the update raised.
\<close>

definition ensure_database_properties :: "env \<Rightarrow> pystr list" where
  "ensure_database_properties ev = (case databases_update ev of None \<Rightarrow> [] | Some names \<Rightarrow> names)"

text \<open>
  The loop \<open>for i in range(0, len(remaining), _NOTION_BLOCK_LIMIT)\<close>, with the calls made
  so far; \<open>children_append ev i\<close> tells whether the append call of the batch at offset
  \<open>i\<close> returns.
\<close>

fun append_loop ::
    "env \<Rightarrow> pystr \<Rightarrow> notion_block list \<Rightarrow> nat list \<Rightarrow> notion_call list \<Rightarrow> error option \<times> notion_call list" where
  "append_loop ev page_id remaining [] calls = (None, calls)"
| "append_loop ev page_id remaining (i # rest) calls =
     (if children_append ev i
      then append_loop ev page_id remaining rest
             (calls @ [BlocksAppend page_id (take NOTION_BLOCK_LIMIT (drop i remaining))])
      else (Some NotionError, calls @ [BlocksAppend page_id (take NOTION_BLOCK_LIMIT (drop i remaining))]))"

text \<open>
  \<open>create_episode_page\<close>: its result and the calls it issued.  \<open>pages_create ev\<close> is the
  \<open>id\<close> and the \<open>url\<close> of the response of the creation call, or \<open>None\<close> when it raises.
\<close>

definition create_episode_page ::
    "env \<Rightarrow> Episode \<Rightarrow> BrewingInsights \<Rightarrow> pystr \<Rightarrow> (error + pystr) \<times> notion_call list" where
  "create_episode_page ev episode insights database_id =
     (let existing_props = ensure_database_properties ev;
          properties = build_properties ev episode existing_props;
          all_blocks = build_blocks episode insights;
          first_batch = take NOTION_BLOCK_LIMIT all_blocks;
          remaining = drop NOTION_BLOCK_LIMIT all_blocks;
          calls = [DatabasesUpdate database_id, PagesCreate database_id properties first_batch]
      in case pages_create ev of
           None \<Rightarrow> (Inl NotionError, calls)
         | Some response \<Rightarrow>
             (case append_loop ev (fst response) remaining
                     (range_step 0 (length remaining) NOTION_BLOCK_LIMIT) calls of
                (Some e, calls') \<Rightarrow> (Inl e, calls')
              | (None, calls') \<Rightarrow> (Inr (snd response), calls')))"

text \<open>
  What the specification speaks of: the text content strings of a block and of a property value,
  the payload of a call, and whether every text content string of a block, of a property
  or of a call has at most \<open>NOTION_TEXT_LIMIT\<close> characters.
\<close>

fun block_texts :: "notion_block \<Rightarrow> pystr list" where
  "block_texts (Callout t emoji) = [t]"
| "block_texts Divider = []"
| "block_texts (Heading2 t) = [t]"
| "block_texts (Heading3 t) = [t]"
| "block_texts (Paragraph t) = [t]"
| "block_texts (BulletedListItem t) = [t]"

fun property_texts :: "property_value \<Rightarrow> pystr list" where
  "property_texts (TitleProp t) = [t]"
| "property_texts (RichTextProp t) = [t]"
| "property_texts (NumberProp n) = []"
| "property_texts (DateProp d) = []"
| "property_texts (UrlProp u) = []"

fun call_blocks :: "notion_call \<Rightarrow> notion_block list" where
  "call_blocks (DatabasesUpdate db) = []"
| "call_blocks (PagesCreate db props children) = children"
| "call_blocks (BlocksAppend page children) = children"

fun call_properties :: "notion_call \<Rightarrow> (pystr \<times> property_value) list" where
  "call_properties (PagesCreate db props children) = props"
| "call_properties _ = []"

definition truncated_block :: "notion_block \<Rightarrow> bool" where
  "truncated_block b = list_all (\<lambda>t. length t \<le> NOTION_TEXT_LIMIT) (block_texts b)"

definition truncated_property :: "pystr \<times> property_value \<Rightarrow> bool" where
  "truncated_property kv = list_all (\<lambda>t. length t \<le> NOTION_TEXT_LIMIT) (property_texts (snd kv))"

definition truncated_call :: "notion_call \<Rightarrow> bool" where
  "truncated_call c = (list_all truncated_block (call_blocks c) \<and> list_all truncated_property (call_properties c))"

section \<open>config.py\<close>

record Config =
  openai_api_key :: pystr
  anthropic_api_key :: pystr
  notion_api_key :: pystr
  notion_database_id :: pystr
  rss_feed_url :: pystr
  temp_dir :: pystr

definition required_keys :: "string list" where
  "required_keys =
     [''OPENAI_API_KEY'', ''ANTHROPIC_API_KEY'', ''NOTION_API_KEY'', ''NOTION_DATABASE_ID'', ''RSS_FEED_URL'']"

text \<open>
  \<open>load_config(feed_url_override)\<close>; \<open>environ k\<close> is \<open>os.getenv(k)\<close> after \<open>load_dotenv()\<close>,
  and \<open>mkdir_ok d\<close> tells whether \<open>Path(d).mkdir(parents=True, exist_ok=True)\<close> returns: it
  raises \<open>OSError\<close> when \<open>d\<close> or one of its parents is a file, or cannot be created.
\<close>

definition load_config ::
    "(string \<Rightarrow> pystr option) \<Rightarrow> (pystr \<Rightarrow> bool) \<Rightarrow> pystr option \<Rightarrow> error + Config" where
  "load_config environ mkdir_ok feed_url_override =
     (let missing = filter (\<lambda>k. \<not> truthy (environ k)) required_keys
      in if missing \<noteq> []
         then Inl (ValueError (lit ''Missing required environment variables: ''
                                @ join (lit '', '') (map lit missing)))
         else if \<not> mkdir_ok (get_default (environ ''TEMP_DIR'') (lit ''/tmp/podscriber''))
         then Inl OSError
         else Inr \<lparr>openai_api_key = the (environ ''OPENAI_API_KEY''),
                   anthropic_api_key = the (environ ''ANTHROPIC_API_KEY''),
                   notion_api_key = the (environ ''NOTION_API_KEY''),
                   notion_database_id = the (environ ''NOTION_DATABASE_ID''),
                   rss_feed_url = the (py_or feed_url_override (environ ''RSS_FEED_URL'')),
                   temp_dir = get_default (environ ''TEMP_DIR'') (lit ''/tmp/podscriber'')\<rparr>)"

text \<open>
  A call of \<open>load_config\<close> with keyword arguments: a keyword that is not a parameter of the
  function raises \<open>TypeError\<close> before its body runs; a parameter that is not given takes
  its default \<open>None\<close>.
\<close>

definition load_config_parameters :: "string list" where
  "load_config_parameters = [''feed_url_override'']"

definition call_load_config ::
    "(string \<Rightarrow> pystr option) \<Rightarrow> (pystr \<Rightarrow> bool) \<Rightarrow> (string \<times> pystr option) list
       \<Rightarrow> error + Config" where
  "call_load_config environ mkdir_ok kwargs =
     (if filter (\<lambda>k. k \<notin> set load_config_parameters) (map fst kwargs) \<noteq> [] then Inl TypeError
      else load_config environ mkdir_ok
             (case map_of kwargs ''feed_url_override'' of None \<Rightarrow> None | Some v \<Rightarrow> v))"

section \<open>main.py: the orchestrator\<close>

text \<open>
  What the pipeline changes: the audio files on disk, the \<open>StateManager\<close> (with the
  content of its file) and the calls received by the publication collaborator.
\<close>

record world =
  files :: filesystem
  manager :: StateManager
  notion_calls :: "notion_call list"

text \<open>
  The \<open>try\<close> block of \<open>_process_episode\<close>: the value of the variable \<open>audio_paths\<close> when the
  block is left, the exception that left it or the url of the page, and the world.
\<close>

definition try_block ::
    "env \<Rightarrow> Episode \<Rightarrow> Config \<Rightarrow> world \<Rightarrow> path list \<times> (error + pystr) \<times> world" where
  "try_block ev ep config w =
     (case download_audio ev (audio_url ep) (temp_dir config) (number ep) (files w) of
        (Inl e, fs1) \<Rightarrow> ([], Inl e, w\<lparr>files := fs1\<rparr>)
      | (Inr raw_path, fs1) \<Rightarrow>
          (case split_audio_if_needed ev raw_path fs1 of
             (Inl e, fs2) \<Rightarrow> ([], Inl e, w\<lparr>files := fs2\<rparr>)
           | (Inr audio_paths, fs2) \<Rightarrow>
               (case transcribe ev audio_paths fs2 of
                  Inl e \<Rightarrow> (audio_paths, Inl e, w\<lparr>files := fs2\<rparr>)
                | Inr transcript \<Rightarrow>
                    (case extract_insights ev transcript (title ep) (description ep) of
                       Inl e \<Rightarrow> (audio_paths, Inl e, w\<lparr>files := fs2\<rparr>)
                     | Inr insights \<Rightarrow>
                         (case create_episode_page ev ep insights (notion_database_id config) of
                            (Inl e, calls) \<Rightarrow>
                              (audio_paths, Inl e,
                               w\<lparr>files := fs2, notion_calls := notion_calls w @ calls\<rparr>)
                          | (Inr notion_url, calls) \<Rightarrow>
                              (audio_paths, Inr notion_url,
                               w\<lparr>files := fs2, notion_calls := notion_calls w @ calls,
                                 manager := mark_processed (utcnow ev) (manager w) (number ep)
                                              notion_url (title ep)\<rparr>))))))"

text \<open>\<open>_process_episode\<close>: the \<open>try\<close> block, then the \<open>finally\<close> clause.\<close>

definition process_episode :: "env \<Rightarrow> Episode \<Rightarrow> Config \<Rightarrow> world \<Rightarrow> world" where
  "process_episode ev ep config w =
     (case try_block ev ep config w of
        (audio_paths, r, w') \<Rightarrow>
          if audio_paths \<noteq> [] then w'\<lparr>files := cleanup_audio audio_paths (files w')\<rparr> else w')"

text \<open>The command-line options of \<open>main\<close>.\<close>

record options =
  opt_episode :: "int option"
  opt_from_episode :: "int option"
  opt_limit :: "int option"
  opt_dry_run :: bool
  opt_feed_url :: "pystr option"
  opt_database_id :: "pystr option"

text \<open>Lines 42 to 52 of main.py: the targets.\<close>

definition select_targets :: "options \<Rightarrow> Episode list \<Rightarrow> StateManager \<Rightarrow> Episode list" where
  "select_targets a episodes st =
     (case opt_episode a of
        Some n \<Rightarrow> filter (\<lambda>ep. number ep = n) episodes
      | None \<Rightarrow>
          (let targets = filter (\<lambda>ep. \<not> is_processed st (number ep)) episodes;
               targets1 = (case opt_from_episode a of
                             Some f \<Rightarrow> filter (\<lambda>ep. number ep \<ge> f) targets
                           | None \<Rightarrow> targets)
           in case opt_limit a of Some l \<Rightarrow> slice_to l targets1 | None \<Rightarrow> targets1))"

text \<open>How the process ends: \<open>main\<close> returns, calls \<open>sys.exit\<close>, or an exception escapes.\<close>

datatype ending =
    Returned
  | SysExit int
  | Uncaught error

definition exit_code :: "ending \<Rightarrow> int" where
  "exit_code t = (case t of Returned \<Rightarrow> 0 | SysExit c \<Rightarrow> c | Uncaught e \<Rightarrow> 1)"

text \<open>The loop \<open>for ep in targets: _process_episode(ep, config, state)\<close>; \<open>envs n\<close> is the
  behaviour of the collaborators while episode \<open>n\<close> is processed.\<close>

definition process_targets :: "(int \<Rightarrow> env) \<Rightarrow> Config \<Rightarrow> Episode list \<Rightarrow> world \<Rightarrow> world" where
  "process_targets envs config targets w =
     foldl (\<lambda>w ep. process_episode (envs (number ep)) ep config w) w targets"

text \<open>
  \<open>main\<close> from line 34 on, with the configuration loaded: \<open>fetch\<close> is \<open>feedparser.parse\<close>,
  \<open>fs0\<close> the audio files on disk and \<open>ledger_file\<close> the content of the state file when
  the process starts.  The call of \<open>parse_feed\<close> stands in no \<open>try\<close> block: what it raises
  ends the process.
\<close>

definition main_with_config ::
    "(pystr \<Rightarrow> feed) \<Rightarrow> datetime \<Rightarrow> (int \<Rightarrow> env) \<Rightarrow> options \<Rightarrow> Config
       \<Rightarrow> filesystem \<Rightarrow> (pystr \<times> ledger_entry) list option \<Rightarrow> ending \<times> world" where
  "main_with_config fetch now envs a config fs0 ledger_file =
     (let st = StateManager_init ledger_file;
          w0 = \<lparr>files = fs0, manager = st, notion_calls = []\<rparr>
      in case parse_feed now (fetch (rss_feed_url config)) of
           Inl e \<Rightarrow> (Uncaught e, w0)
         | Inr episodes \<Rightarrow>
             (let targets = select_targets a episodes st
              in if episodes = [] then (Returned, w0)
                 else if opt_episode a \<noteq> None \<and> targets = [] then (SysExit 1, w0)
                 else if targets = [] then (Returned, w0)
                 else if opt_dry_run a then (Returned, w0)
                 else (Returned, process_targets envs config targets w0)))"

text \<open>
  The handler of \<open>main\<close> around the loading of the configuration: a \<open>ValueError\<close> is
  reported and the process exits with code 1; any other exception escapes.
\<close>

definition main_from ::
    "error + Config \<Rightarrow> (pystr \<Rightarrow> feed) \<Rightarrow> datetime \<Rightarrow> (int \<Rightarrow> env) \<Rightarrow> options
       \<Rightarrow> filesystem \<Rightarrow> (pystr \<times> ledger_entry) list option \<Rightarrow> ending \<times> world" where
  "main_from loaded fetch now envs a fs0 ledger_file =
     (case loaded of
        Inl (ValueError m) \<Rightarrow>
          (SysExit 1, \<lparr>files = fs0, manager = StateManager_init ledger_file, notion_calls = []\<rparr>)
      | Inl e \<Rightarrow>
          (Uncaught e, \<lparr>files = fs0, manager = StateManager_init ledger_file, notion_calls = []\<rparr>)
      | Inr config \<Rightarrow> main_with_config fetch now envs a config fs0 ledger_file)"

text \<open>
  \<open>main\<close>: line 29 calls
  \<open>load_config(feed_url_override=feed_url, database_id_override=database_id)\<close>.
\<close>

definition main ::
    "(string \<Rightarrow> pystr option) \<Rightarrow> (pystr \<Rightarrow> bool) \<Rightarrow> (pystr \<Rightarrow> feed) \<Rightarrow> datetime
       \<Rightarrow> (int \<Rightarrow> env) \<Rightarrow> options \<Rightarrow> filesystem \<Rightarrow> (pystr \<times> ledger_entry) list option
       \<Rightarrow> ending \<times> world" where
  "main environ mkdir_ok fetch now envs a fs0 ledger_file =
     main_from
       (call_load_config environ mkdir_ok
          [(''feed_url_override'', opt_feed_url a), (''database_id_override'', opt_database_id a)])
       fetch now envs a fs0 ledger_file"

section \<open>Concrete inputs\<close>

text \<open>
  A feed whose entries stand in the order C, news, A, B: C, A and B carry audio and were
  published in the order A, B, C; the entry news has no audio.
\<close>

definition feed_CAB :: feed where
  "feed_CAB = \<lparr>bozo = False,
     entries =
       [\<lparr>entry_title = Some (lit ''C''), published_parsed = Some [2024, 3, 1, 0, 0, 0, 4, 61, 0],
          summary = Some (lit ''<b>c</b> ''),
          enclosures = [\<lparr>enc_type = Some (lit ''audio/mpeg''), enc_href = Some (lit ''c.mp3''),
                         enc_url = None\<rparr>],
          links = []\<rparr>,
        \<lparr>entry_title = Some (lit ''news''), published_parsed = Some [2024, 2, 15, 0, 0, 0, 3, 46, 0],
          summary = None, enclosures = [],
          links = [\<lparr>link_rel = Some (lit ''alternate''), link_href = Some (lit ''news.html'')\<rparr>]\<rparr>,
        \<lparr>entry_title = Some (lit ''A''), published_parsed = Some [2024, 1, 1, 0, 0, 0, 0, 1, 0],
          summary = None, enclosures = [],
          links = [\<lparr>link_rel = Some (lit ''enclosure''), link_href = Some (lit ''a.mp3'')\<rparr>]\<rparr>,
        \<lparr>entry_title = Some (lit ''B''), published_parsed = Some [2024, 2, 1, 0, 0, 0, 3, 32, 0],
          summary = None,
          enclosures = [\<lparr>enc_type = Some (lit ''audio/mpeg''), enc_href = None,
                         enc_url = Some (lit ''b.mp3'')\<rparr>],
          links = []\<rparr>],
     feed_title = Some (lit ''Pod'')\<rparr>"

text \<open>
  A feed of two entries with audio: the first was published in 2020, the second carries
  no publish time.
\<close>

definition feed_undated :: feed where
  "feed_undated = \<lparr>bozo = False,
     entries =
       [\<lparr>entry_title = Some (lit ''old''), published_parsed = Some [2020, 5, 1, 0, 0, 0, 4, 122, 0],
          summary = None,
          enclosures = [\<lparr>enc_type = Some (lit ''audio/mpeg''), enc_href = Some (lit ''o.mp3''),
                         enc_url = None\<rparr>],
          links = []\<rparr>,
        \<lparr>entry_title = Some (lit ''undated''), published_parsed = None,
          summary = None,
          enclosures = [\<lparr>enc_type = Some (lit ''audio/mpeg''), enc_href = Some (lit ''u.mp3''),
                         enc_url = None\<rparr>],
          links = []\<rparr>],
     feed_title = None\<rparr>"

text \<open>
  A feed of one entry with audio whose publish time has the year 0, and the time of a run.
\<close>

definition feed_year0 :: feed where
  "feed_year0 = \<lparr>bozo = False,
     entries =
       [\<lparr>entry_title = Some (lit ''Z''), published_parsed = Some [0, 1, 1, 0, 0, 0, 5, 1, 0],
          summary = None,
          enclosures = [\<lparr>enc_type = Some (lit ''audio/mpeg''), enc_href = Some (lit ''z.mp3''),
                         enc_url = None\<rparr>],
          links = []\<rparr>],
     feed_title = None\<rparr>"

definition now2025 :: datetime where
  "now2025 = [2025, 1, 1, 0, 0, 0]"

text \<open>
  Collaborators that all succeed: the download is 30 MB, the audio lasts 60 minutes, the
  extraction response lacks \<open>business_and_marketing\<close>.  \<open>raw7\<close> is the download of
  episode 7.
\<close>

definition partial_response :: "(pystr \<times> json) list" where
  "partial_response =
     [(lit ''episode_summary'', JStr (lit ''s'')),
      (lit ''brewing_techniques'', JArr [JStr (lit ''t'')]),
      (lit ''recipes'', JArr [JObj [(lit ''name'', JStr (lit ''r''))]]),
      (lit ''ingredients_and_products'', JArr []),
      (lit ''key_takeaways'', JArr [JStr (lit ''k'')])]"

definition env_ok :: env where
  "env_ok = \<lparr>mkdir = (\<lambda>d. True),
     http_get = (\<lambda>attempt. Complete (30 * 1024 * 1024)),
     url_suffix = (\<lambda>url. lit ''.mp3''),
     pydub_installed = True,
     from_file = (\<lambda>p. Some 3600000),
     export = (\<lambda>i. Some 5000000),
     export_leftover = (\<lambda>i. None),
     whisper = (\<lambda>p. Some (lit ''words'')),
     claude = (\<lambda>message. Some [Text (lit ''ok''), ToolUse partial_response]),
     databases_update = Some [lit ''Name'', lit ''Episode Number''],
     pages_create = Some (lit ''id'', lit ''url''),
     children_append = (\<lambda>i. True),
     clean_title = (\<lambda>t. t),
     today = [2025, 1, 1],
     utcnow = lit ''now''\<rparr>"

definition raw7 :: path where
  "raw7 = Dest (lit ''/tmp'') 7 (lit ''.mp3'')"

text \<open>
  Episode 7 and insights that render to 268 blocks, with a summary of 2500 characters.
\<close>

definition episode7 :: Episode where
  "episode7 = \<lparr>number = 7, title = lit ''T'', published = [2024, 1, 1, 0, 0, 0],
     audio_url = lit ''a.mp3'', description = [], podcast_name = lit ''Pod''\<rparr>"

definition insights250 :: BrewingInsights where
  "insights250 = \<lparr>episode_summary = replicate 2500 120, brewing_techniques = [], recipes = [],
     ingredients_and_products = [], business_and_marketing = [],
     key_takeaways = replicate 250 (lit ''k'')\<rparr>"

text \<open>
  A configuration, a world with no file and an empty ledger, the same world after an
  earlier run has recorded episode 7, and collaborators that differ from \<open>env_ok\<close> in one
  respect: the download is of 1000 bytes; the download fails; pydub is not installed.
\<close>

definition config0 :: Config where
  "config0 = \<lparr>openai_api_key = lit ''o'', anthropic_api_key = lit ''a'', notion_api_key = lit ''n'',
     notion_database_id = lit ''db'', rss_feed_url = lit ''feed'', temp_dir = lit ''/tmp''\<rparr>"

definition world0 :: world where
  "world0 = \<lparr>files = Map.empty, manager = StateManager_init None, notion_calls = []\<rparr>"


definition env_small :: env where
  "env_small = env_ok\<lparr>http_get := (\<lambda>attempt. Complete 1000)\<rparr>"


definition env_nopydub :: env where
  "env_nopydub = env_ok\<lparr>pydub_installed := False\<rparr>"

text \<open>
  Options: no option at all; \<open>--from 5 --limit 2\<close>; \<open>--episode 2\<close>; \<open>--database db2\<close>.  An
  environment with every required variable set.  Collaborators that succeed with a small
  download for every episode.
\<close>

definition no_options :: options where
  "no_options = \<lparr>opt_episode = None, opt_from_episode = None, opt_limit = None,
     opt_dry_run = False, opt_feed_url = None, opt_database_id = None\<rparr>"

definition from5_limit2 :: options where
  "from5_limit2 = no_options\<lparr>opt_from_episode := Some 5, opt_limit := Some 2\<rparr>"

definition episode2 :: options where
  "episode2 = no_options\<lparr>opt_episode := Some 2\<rparr>"

definition database_override :: options where
  "database_override = no_options\<lparr>opt_database_id := Some (lit ''db2'')\<rparr>"

definition environ_full :: "string \<Rightarrow> pystr option" where
  "environ_full k = (if k \<in> set required_keys then Some (lit ''x'') else None)"

definition envs_small :: "int \<Rightarrow> env" where
  "envs_small n = env_small"

text \<open>
  The feed \<open>feed_CAB\<close> at every url.  A feed of seven entries with audio, the newest first,
  published on the days 7 to 1 of January 2024, at every url.
\<close>

definition fetch_CAB :: "pystr \<Rightarrow> feed" where
  "fetch_CAB url = feed_CAB"

definition entry_of_day :: "int \<Rightarrow> entry" where
  "entry_of_day d =
     \<lparr>entry_title = Some (lit ''T''), published_parsed = Some [2024, 1, d, 0, 0, 0, 0, d, 0],
      summary = None,
      enclosures = [\<lparr>enc_type = Some (lit ''audio/mpeg''), enc_href = Some (lit ''a.mp3''),
                     enc_url = None\<rparr>],
      links = []\<rparr>"

definition feed_seven :: feed where
  "feed_seven = \<lparr>bozo = False, entries = map entry_of_day [7, 6, 5, 4, 3, 2, 1],
     feed_title = Some (lit ''Pod'')\<rparr>"

definition fetch_seven :: "pystr \<Rightarrow> feed" where
  "fetch_seven url = feed_seven"

text \<open>
  The content of a ledger file that holds the episodes 1, 2 and 4, and of one that holds
  episode 2.
\<close>

definition ledger_file_124 :: "(pystr \<times> ledger_entry) list option" where
  "ledger_file_124 =
     Some [(lit ''1'', \<lparr>ledger_title = lit ''T'', ledger_notion_url = lit ''u1'',
                          ledger_processed_at = lit ''then''\<rparr>),
           (lit ''2'', \<lparr>ledger_title = lit ''T'', ledger_notion_url = lit ''u2'',
                          ledger_processed_at = lit ''then''\<rparr>),
           (lit ''4'', \<lparr>ledger_title = lit ''T'', ledger_notion_url = lit ''u4'',
                          ledger_processed_at = lit ''then''\<rparr>)]"

definition ledger_file_2 :: "(pystr \<times> ledger_entry) list option" where
  "ledger_file_2 =
     Some [(lit ''2'', \<lparr>ledger_title = lit ''B'', ledger_notion_url = lit ''old'',
                          ledger_processed_at = lit ''then''\<rparr>)]"

section \<open>Properties of the ledger\<close>

lemma foldl_update_distinct:
  "distinct (map fst acc) \<Longrightarrow>
   distinct (map fst (foldl (\<lambda>d (k, v). AList.update k v d) acc doc))"
  by (induction doc arbitrary: acc) (auto simp: distinct_update)

lemma json_load_distinct: "distinct (map fst (json_load doc))"
  unfolding json_load_def using foldl_update_distinct [of "[]" doc] by simp

lemma update_fresh: "k \<notin> fst ` set al \<Longrightarrow> AList.update k v al = al @ [(k, v)]"
  by (induction al) auto

lemma foldl_update_append:
  "distinct (map fst (acc @ doc)) \<Longrightarrow>
   foldl (\<lambda>d (k, v). AList.update k v d) acc doc = acc @ doc"
proof (induction doc arbitrary: acc)
  case Nil
  then show ?case by simp
next
  case (Cons kv doc)
  obtain k v where kv: "kv = (k, v)" by (cases kv)
  from Cons.prems kv have fresh: "k \<notin> fst ` set acc" by auto
  from Cons.prems kv have d: "distinct (map fst ((acc @ [(k, v)]) @ doc))" by auto
  show ?case using Cons.IH [OF d] kv fresh by (simp add: update_fresh)
qed






lemma json_load_id: "distinct (map fst d) \<Longrightarrow> json_load d = d"
  unfolding json_load_def using foldl_update_append [of "[]" d] by simp

lemma length_alist_update:
  "length (AList.update k v al) = (if k \<in> fst ` set al then length al else length al + 1)"
  by (induction al) auto

lemma count_key_update:
  "distinct (map fst al) \<Longrightarrow> length (filter (\<lambda>kv. fst kv = k) (AList.update k v al)) = 1"
proof (induction al)
  case Nil
  then show ?case by simp
next
  case (Cons a al)
  show ?case
  proof (cases "fst a = k")
    case True
    with Cons.prems have "k \<notin> fst ` set al" by auto
    then have "filter (\<lambda>kv. fst kv = k) al = []" by (auto simp: filter_empty_conv)
    with True show ?thesis by (cases a) simp
  next
    case False
    with Cons show ?thesis by (cases a) auto
  qed
qed

text \<open>
  Claim C5.  For every episode number \<open>n\<close> and every content \<open>f\<close> of the ledger file (also
  no file): after \<open>mark_processed\<close> of \<open>n\<close>, a \<open>StateManager\<close> freshly constructed over the
  file reports \<open>n\<close> as processed and holds exactly one entry for \<open>n\<close>; the same is true
  after a second \<open>mark_processed\<close> of \<open>n\<close>, which leaves the count as it was after the
  first and overwrites the entry; the first call raises the count by one exactly when \<open>n\<close>
  was not yet in the ledger; and when a call returns, the file holds the record that the
  call was given.
\<close>

theorem ledger_round_trip:
  "is_processed (reloaded (mark_processed now1 (StateManager_init f) n ref1 title1)) n
   \<and> length (filter (\<lambda>kv. fst kv = str_int n)
         (state (reloaded (mark_processed now1 (StateManager_init f) n ref1 title1)))) = 1
   \<and> is_processed (reloaded (mark_processed now2
         (mark_processed now1 (StateManager_init f) n ref1 title1) n ref2 title2)) n
   \<and> length (filter (\<lambda>kv. fst kv = str_int n)
         (state (reloaded (mark_processed now2
            (mark_processed now1 (StateManager_init f) n ref1 title1) n ref2 title2)))) = 1
   \<and> get_processed_count (reloaded (mark_processed now2
         (mark_processed now1 (StateManager_init f) n ref1 title1) n ref2 title2))
       = get_processed_count (reloaded (mark_processed now1 (StateManager_init f) n ref1 title1))
   \<and> get_processed_count (reloaded (mark_processed now1 (StateManager_init f) n ref1 title1))
       = (if is_processed (StateManager_init f) n then get_processed_count (StateManager_init f)
          else get_processed_count (StateManager_init f) + 1)
   \<and> (\<exists>doc. state_file (mark_processed now1 (StateManager_init f) n ref1 title1) = Some doc
        \<and> map_of doc (str_int n)
            = Some \<lparr>ledger_title = title1, ledger_notion_url = ref1, ledger_processed_at = now1\<rparr>)
   \<and> (\<exists>doc. state_file (mark_processed now2
          (mark_processed now1 (StateManager_init f) n ref1 title1) n ref2 title2) = Some doc
        \<and> map_of doc (str_int n)
            = Some \<lparr>ledger_title = title2, ledger_notion_url = ref2, ledger_processed_at = now2\<rparr>)"
proof -
  define s0 where "s0 = StateManager_init f"
  define s1 where "s1 = mark_processed now1 s0 n ref1 title1"
  define s2 where "s2 = mark_processed now2 s1 n ref2 title2"
  have d0: "distinct (map fst (state s0))"
    by (simp add: s0_def StateManager_init_def load_def json_load_distinct split: option.splits)
  have st1: "state s1 = AList.update (str_int n)
      \<lparr>ledger_title = title1, ledger_notion_url = ref1, ledger_processed_at = now1\<rparr> (state s0)"
    by (simp add: s1_def mark_processed_def save_def)
  have d1: "distinct (map fst (state s1))" using d0 by (simp add: st1 distinct_update)
  have st2: "state s2 = AList.update (str_int n)
      \<lparr>ledger_title = title2, ledger_notion_url = ref2, ledger_processed_at = now2\<rparr> (state s1)"
    by (simp add: s2_def mark_processed_def save_def)
  have d2: "distinct (map fst (state s2))" using d1 by (simp add: st2 distinct_update)
  have f1: "state_file s1 = Some (state s1)"
    by (simp add: s1_def mark_processed_def save_def json_dump_def)
  have f2: "state_file s2 = Some (state s2)"
    by (simp add: s2_def mark_processed_def save_def json_dump_def)
  have r1: "state (reloaded s1) = state s1"
    using d1 by (simp add: f1 reloaded_def StateManager_init_def load_def json_load_id)
  have r2: "state (reloaded s2) = state s2"
    using d2 by (simp add: f2 reloaded_def StateManager_init_def load_def json_load_id)
  have in1: "str_int n \<in> fst ` set (state s1)" by (simp add: st1 dom_update)
  have in2: "str_int n \<in> fst ` set (state s2)" by (simp add: st2 dom_update)
  have len2: "length (state s2) = length (state s1)"
    using in1 by (simp add: st2 length_alist_update)
  have len1: "length (state s1) =
      (if str_int n \<in> fst ` set (state s0) then length (state s0) else length (state s0) + 1)"
    by (simp add: st1 length_alist_update)
  have c1: "length (filter (\<lambda>kv. fst kv = str_int n) (state s1)) = 1"
    unfolding st1 by (rule count_key_update [OF d0])
  have c2: "length (filter (\<lambda>kv. fst kv = str_int n) (state s2)) = 1"
    unfolding st2 by (rule count_key_update [OF d1])
  have m1: "map_of (state s1) (str_int n)
      = Some \<lparr>ledger_title = title1, ledger_notion_url = ref1, ledger_processed_at = now1\<rparr>"
    by (simp add: st1 update_conv')
  have m2: "map_of (state s2) (str_int n)
      = Some \<lparr>ledger_title = title2, ledger_notion_url = ref2, ledger_processed_at = now2\<rparr>"
    by (simp add: st2 update_conv')
  have "is_processed (reloaded s1) n
   \<and> length (filter (\<lambda>kv. fst kv = str_int n) (state (reloaded s1))) = 1
   \<and> is_processed (reloaded s2) n
   \<and> length (filter (\<lambda>kv. fst kv = str_int n) (state (reloaded s2))) = 1
   \<and> get_processed_count (reloaded s2) = get_processed_count (reloaded s1)
   \<and> get_processed_count (reloaded s1)
       = (if is_processed s0 n then get_processed_count s0 else get_processed_count s0 + 1)
   \<and> (\<exists>doc. state_file s1 = Some doc
        \<and> map_of doc (str_int n)
            = Some \<lparr>ledger_title = title1, ledger_notion_url = ref1, ledger_processed_at = now1\<rparr>)
   \<and> (\<exists>doc. state_file s2 = Some doc
        \<and> map_of doc (str_int n)
            = Some \<lparr>ledger_title = title2, ledger_notion_url = ref2, ledger_processed_at = now2\<rparr>)"
    using in1 in2 len1 len2 c1 c2 m1 m2
    by (simp add: is_processed_def get_processed_count_def r1 r2 f1 f2)
  then show ?thesis unfolding s2_def s1_def s0_def .
qed

theorem ledger_round_trip_witness:
  "is_processed
     (reloaded (mark_processed (lit ''t2'')
        (mark_processed (lit ''t1'') (StateManager_init None) 7 (lit ''u'') (lit ''T''))
        7 (lit ''u'') (lit ''T''))) 7
   \<and> get_processed_count
       (reloaded (mark_processed (lit ''t2'')
          (mark_processed (lit ''t1'') (StateManager_init None) 7 (lit ''u'') (lit ''T''))
          7 (lit ''u'') (lit ''T''))) = 1"
proof -
  note T = ledger_round_trip [of "lit ''t1''" None 7 "lit ''u''" "lit ''T''" "lit ''t2''"
      "lit ''u''" "lit ''T''"]
  from T have 1: "is_processed
     (reloaded (mark_processed (lit ''t2'')
        (mark_processed (lit ''t1'') (StateManager_init None) 7 (lit ''u'') (lit ''T''))
        7 (lit ''u'') (lit ''T''))) 7"
    by (elim conjE)
  from T have "get_processed_count
       (reloaded (mark_processed (lit ''t2'')
          (mark_processed (lit ''t1'') (StateManager_init None) 7 (lit ''u'') (lit ''T''))
          7 (lit ''u'') (lit ''T'')))
     = get_processed_count
         (reloaded (mark_processed (lit ''t1'') (StateManager_init None) 7 (lit ''u'') (lit ''T'')))"
    by (elim conjE)
  moreover from T have "get_processed_count
         (reloaded (mark_processed (lit ''t1'') (StateManager_init None) 7 (lit ''u'') (lit ''T'')))
     = (if is_processed (StateManager_init None) 7 then get_processed_count (StateManager_init None)
        else get_processed_count (StateManager_init None) + 1)"
    by (elim conjE)
  ultimately have 2: "get_processed_count
       (reloaded (mark_processed (lit ''t2'')
          (mark_processed (lit ''t1'') (StateManager_init None) 7 (lit ''u'') (lit ''T''))
          7 (lit ''u'') (lit ''T''))) = 1"
    by (simp add: is_processed_def get_processed_count_def StateManager_init_def load_def)
  from 1 2 show ?thesis by (intro conjI) assumption+
qed

section \<open>Properties of the episode directory\<close>

lemma str_nat_digit: "n < 10 \<Longrightarrow> str_nat n = [48 + n]"
  by (simp add: str_nat.simps)

lemma entries_with_audio_eq:
  "entries_with_audio es = map (\<lambda>e. (e, the (extract_audio_url e))) (filter has_audio es)"
  by (induction es) (simp_all add: entries_with_audio_def has_audio_def)

text \<open>The two loops of \<open>_extract_audio_url\<close> follow the policy of the specification.\<close>

lemma enclosure_loop_find:
  "enclosure_loop encs =
     map_option (\<lambda>enc. py_or (enc_href enc) (enc_url enc))
       (find (\<lambda>enc. startswith (get_default (enc_type enc) []) (lit ''audio/'')) encs)"
  by (induction encs) simp_all

lemma link_loop_find:
  "link_loop ls =
     (case find (\<lambda>l. link_rel l = Some (lit ''enclosure'') \<and> truthy (link_href l)) ls of
        Some l \<Rightarrow> link_href l
      | None \<Rightarrow> None)"
  by (induction ls) simp_all

lemma extract_audio_url_policy: "extract_audio_url e = policy_locator e"
  by (simp add: extract_audio_url_def policy_locator_def enclosure_loop_find link_loop_find
        split: option.splits)

lemma has_audio_resolvable: "has_audio = resolvable"
  by (rule ext) (simp add: has_audio_def resolvable_def extract_audio_url_policy)

lemma take_less_imp_less:
  fixes a b :: "int list"
  shows "take n a < take n b \<Longrightarrow> a < b"
proof (induction n arbitrary: a b)
  case 0
  then show ?case by simp
next
  case (Suc n)
  show ?case
  proof (cases a)
    case Nil
    with Suc.prems show ?thesis by (cases b) simp_all
  next
    case (Cons x xs)
    note a = this
    show ?thesis
    proof (cases b)
      case Nil
      with Suc.prems a show ?thesis by simp
    next
      case (Cons y ys)
      with Suc.prems a Suc.IH [of xs ys] show ?thesis by auto
    qed
  qed
qed

lemma sorted_nth_less:
  fixes ks :: "int list list"
  assumes "sorted ks" "i < length ks" "j < length ks" "ks ! i < ks ! j"
  shows "i < j"
proof (rule ccontr)
  assume "\<not> i < j"
  then have "j \<le> i" by simp
  with assms(1,2) have "ks ! j \<le> ks ! i" by (simp add: sorted_nth_mono)
  with assms(4) show False by simp
qed

text \<open>A publish time of six components or more becomes its first six components.\<close>

lemma parse_date_take:
  assumes "parse_date now pp = Inr d" "truthy pp" "6 \<le> length (the pp)"
  shows "d = take 6 (the pp)"
  using assms by (auto simp: parse_date_def datetime_new_def Let_def split: option.splits if_splits)

text \<open>
  The loop returns exactly when the construction of every episode does, and then it has
  appended the episodes in order.
\<close>

lemma episode_loop_Inr:
  "episode_loop now pod xs acc = Inr eps \<Longrightarrow>
     length eps = length acc + length xs \<and> take (length acc) eps = acc
     \<and> (\<forall>k < length xs. make_episode now pod (xs ! k) = Inr (eps ! (length acc + k)))"
proof (induction xs arbitrary: acc)
  case Nil
  then show ?case by simp
next
  case (Cons x xs)
  from Cons.prems obtain ep where ep: "make_episode now pod x = Inr ep"
    and rest: "episode_loop now pod xs (acc @ [ep]) = Inr eps"
    by (auto split: sum.splits)
  from Cons.IH [OF rest]
  have len: "length eps = Suc (length acc) + length xs"
    and tk: "take (Suc (length acc)) eps = acc @ [ep]"
    and nth: "\<forall>k < length xs. make_episode now pod (xs ! k) = Inr (eps ! (Suc (length acc) + k))"
    by simp_all
  from tk have "take (length acc) (take (Suc (length acc)) eps) = take (length acc) (acc @ [ep])"
    by simp
  then have tk': "take (length acc) eps = acc" by (simp add: min_def)
  from tk have "take (Suc (length acc)) eps ! length acc = (acc @ [ep]) ! length acc" by simp
  then have at: "eps ! length acc = ep" by simp
  have "make_episode now pod ((x # xs) ! k) = Inr (eps ! (length acc + k))"
    if "k < length (x # xs)" for k
  proof (cases k)
    case 0
    with ep at show ?thesis by simp
  next
    case (Suc k')
    with that nth show ?thesis by simp
  qed
  with len tk' show ?case by simp
qed

lemma episode_loop_returns:
  "(\<exists>eps. episode_loop now pod xs acc = Inr eps) \<longleftrightarrow> (\<forall>x \<in> set xs. \<not> isl (make_episode now pod x))"
proof (induction xs arbitrary: acc)
  case Nil
  then show ?case by simp
next
  case (Cons x xs)
  show ?case
  proof (cases "make_episode now pod x")
    case (Inl e)
    then show ?thesis by simp
  next
    case (Inr ep)
    with Cons.IH [of "acc @ [ep]"] show ?thesis by simp
  qed
qed

lemma make_episode_Inr:
  assumes "make_episode now pod (i, e, url) = Inr ep"
  shows "number ep = int i" and "audio_url ep = url"
    and "title ep = get_default (entry_title e) (lit ''Untitled'')"
    and "parse_date now (published_parsed e) = Inr (published ep)"
  using assms by (auto simp: make_episode_def split: sum.splits)

lemma isl_make_episode:
  "isl (make_episode now pod (i, e, url)) = isl (parse_date now (published_parsed e))"
  by (simp add: make_episode_def split: sum.splits)

lemma sorted_pairs_facts:
  fixes f :: feed
  defines "srt \<equiv> sort_key sort_key_of (entries_with_audio (entries f))"
  shows "mset (map fst srt) = mset (filter has_audio (entries f))"
    and "length srt = length (filter has_audio (entries f))"
    and "sorted (map sort_key_of srt)"
    and "\<forall>x \<in> set srt. snd x = the (extract_audio_url (fst x))"
proof -
  have m: "mset srt = mset (entries_with_audio (entries f))"
    by (simp add: srt_def)
  have "mset (map fst srt) = image_mset fst (mset (entries_with_audio (entries f)))"
    using m by (metis mset_map)
  also have "\<dots> = mset (map fst (entries_with_audio (entries f)))" by simp
  also have "\<dots> = mset (filter has_audio (entries f))"
    by (simp add: entries_with_audio_eq comp_def)
  finally show "mset (map fst srt) = mset (filter has_audio (entries f))" .
  show "length srt = length (filter has_audio (entries f))"
    by (simp add: srt_def entries_with_audio_eq)
  show "sorted (map sort_key_of srt)" by (simp add: srt_def)
  have "set srt = set (entries_with_audio (entries f))" by (simp add: srt_def)
  then show "\<forall>x \<in> set srt. snd x = the (extract_audio_url (fst x))"
    by (auto simp: entries_with_audio_eq)
qed

lemma parse_feed_eq:
  "parse_feed now f =
     episode_loop now (get_default (feed_title f) (lit ''Unknown Podcast''))
       (enumerate 1 (sort_key sort_key_of (entries_with_audio (entries f)))) []"
  by (simp add: parse_feed_def entries_with_audio_def)

text \<open>
  \<open>parse_feed\<close> returns exactly when the publish time of every entry with a resolvable
  audio locator is absent or makes a valid datetime.
\<close>

lemma parse_feed_returns:
  "(\<exists>eps. parse_feed now f = Inr eps)
     \<longleftrightarrow> (\<forall>e \<in> set (filter resolvable (entries f)). \<not> isl (parse_date now (published_parsed e)))"
proof -
  define srt where "srt = sort_key sort_key_of (entries_with_audio (entries f))"
  define pod where "pod = get_default (feed_title f) (lit ''Unknown Podcast'')"
  have "set (map fst srt) = set (filter has_audio (entries f))"
    using sorted_pairs_facts(1) [of f] unfolding srt_def by (metis set_mset_mset)
  then have s: "fst ` set srt = set (filter resolvable (entries f))"
    by (simp add: has_audio_resolvable)
  have "(\<exists>eps. parse_feed now f = Inr eps)
          \<longleftrightarrow> (\<forall>x \<in> set (enumerate 1 srt). \<not> isl (make_episode now pod x))"
    unfolding parse_feed_eq srt_def pod_def by (rule episode_loop_returns)
  also have "\<dots> \<longleftrightarrow> (\<forall>x \<in> set srt. \<not> isl (parse_date now (published_parsed (fst x))))"
  proof
    assume a: "\<forall>x \<in> set (enumerate 1 srt). \<not> isl (make_episode now pod x)"
    show "\<forall>x \<in> set srt. \<not> isl (parse_date now (published_parsed (fst x)))"
    proof
      fix x assume "x \<in> set srt"
      then obtain k where k: "k < length srt" "srt ! k = x" by (auto simp: in_set_conv_nth)
      then have "(Suc k, x) \<in> set (enumerate 1 srt)"
        by (auto simp: in_set_enumerate_eq)
      with a have "\<not> isl (make_episode now pod (Suc k, fst x, snd x))" by fastforce
      with isl_make_episode [of now pod "Suc k" "fst x" "snd x"]
      show "\<not> isl (parse_date now (published_parsed (fst x)))" by blast
    qed
  next
    assume a: "\<forall>x \<in> set srt. \<not> isl (parse_date now (published_parsed (fst x)))"
    show "\<forall>x \<in> set (enumerate 1 srt). \<not> isl (make_episode now pod x)"
    proof
      fix x assume "x \<in> set (enumerate 1 srt)"
      then have "fst x - 1 < length srt \<and> srt ! (fst x - 1) = snd x"
        by (auto simp: in_set_enumerate_eq)
      then have "snd x \<in> set srt" by (metis nth_mem)
      with a have "\<not> isl (parse_date now (published_parsed (fst (snd x))))" by blast
      with isl_make_episode [of now pod "fst x" "fst (snd x)" "snd (snd x)"]
      have "\<not> isl (make_episode now pod (fst x, fst (snd x), snd (snd x)))" by blast
      then show "\<not> isl (make_episode now pod x)" by simp
    qed
  qed
  also have "\<dots> \<longleftrightarrow> (\<forall>e \<in> fst ` set srt. \<not> isl (parse_date now (published_parsed e)))"
    by blast
  finally show ?thesis unfolding s .
qed

lemmas feed_eval =
  parse_feed_def entries_with_audio_def extract_audio_url_def truthy_def py_or_def
  startswith_def lit_def get_default_def sort_key_of_def make_episode_def parse_date_def
  strip_html_def strip_def isspace_def has_audio_def enumerate_eq_zip
  datetime_new_def datetime_check_def days_in_month_def is_leap_def
  resolvable_def policy_locator_def now2025_def

text \<open>
  Claim C3, as amended.  Let \<open>N\<close> be the number of entries of the feed with a resolvable
  audio locator, in the sense of the policy of the specification.  \<open>parse_feed\<close> returns
  exactly when every publish time of such an entry makes a valid datetime.  When it
  returns, it returns \<open>N\<close> episodes, numbered 1 to \<open>N\<close> in the order of the list; they are
  made from the entries with a resolvable audio locator, each taken once and no other
  (\<open>src\<close> lists them in the order of the result), with the locator that the policy gives,
  so an entry without one takes no number; the entries are in ascending order of their
  sort key, which is the publish time of the feed or \<open>(0,)\<close> for an entry without one;
  and for two entries that carry a publish time, an earlier publish time in the feed, or
  (the publish times having their six components) an earlier \<open>published\<close> of the Episode
  record, gives a smaller episode number.
\<close>

theorem parse_feed_numbering:
  "((\<exists>eps'. parse_feed now f = Inr eps')
      \<longleftrightarrow> (\<forall>e \<in> set (filter resolvable (entries f)). \<not> isl (parse_date now (published_parsed e))))
   \<and> (parse_feed now f = Inr eps \<longrightarrow>
       (\<exists>src. mset src = mset (filter resolvable (entries f))
          \<and> length eps = length (filter resolvable (entries f))
          \<and> map number eps = map int [1 ..< Suc (length (filter resolvable (entries f)))]
          \<and> (\<forall>i < length src.
                audio_url (eps ! i) = the (policy_locator (src ! i))
              \<and> title (eps ! i) = get_default (entry_title (src ! i)) (lit ''Untitled'')
              \<and> parse_date now (published_parsed (src ! i)) = Inr (published (eps ! i)))
          \<and> sorted (map (\<lambda>e. if truthy (published_parsed e) then the (published_parsed e) else [0]) src)
          \<and> (\<forall>i < length src. \<forall>j < length src.
                truthy (published_parsed (src ! i)) \<and> truthy (published_parsed (src ! j))
                \<and> (the (published_parsed (src ! i)) < the (published_parsed (src ! j))
                    \<or> (6 \<le> length (the (published_parsed (src ! i)))
                        \<and> 6 \<le> length (the (published_parsed (src ! j)))
                        \<and> published (eps ! i) < published (eps ! j)))
                \<longrightarrow> number (eps ! i) < number (eps ! j))))"
proof (rule conjI [OF parse_feed_returns], rule impI)
  assume ret: "parse_feed now f = Inr eps"
  define srt where "srt = sort_key sort_key_of (entries_with_audio (entries f))"
  define src where "src = map fst srt"
  define pod where "pod = get_default (feed_title f) (lit ''Unknown Podcast'')"
  define N where "N = length (filter resolvable (entries f))"
  have loop: "episode_loop now pod (enumerate 1 srt) [] = Inr eps"
    using ret by (simp add: parse_feed_eq srt_def pod_def)
  have m: "mset src = mset (filter resolvable (entries f))"
    unfolding src_def srt_def has_audio_resolvable [symmetric] by (rule sorted_pairs_facts(1))
  have len: "length srt = N"
    unfolding srt_def N_def has_audio_resolvable [symmetric] by (rule sorted_pairs_facts(2))
  have lsrc: "length src = N" by (simp add: src_def len)
  have srtd: "sorted (map sort_key_of srt)"
    unfolding srt_def by (rule sorted_pairs_facts(3))
  have urls: "\<forall>x \<in> set srt. snd x = the (extract_audio_url (fst x))"
    unfolding srt_def by (rule sorted_pairs_facts(4))
  from episode_loop_Inr [OF loop]
  have lpf: "length eps = N"
    and mk: "\<forall>k < N. make_episode now pod (enumerate 1 srt ! k) = Inr (eps ! k)"
    by (simp_all add: len)
  have nth: "make_episode now pod (Suc i, fst (srt ! i), snd (srt ! i)) = Inr (eps ! i)"
    if "i < N" for i
    using that mk by (simp add: len nth_enumerate_eq)
  have num: "number (eps ! i) = int (Suc i)" if "i < N" for i
    using nth [OF that] by (rule make_episode_Inr(1))
  have nums: "map number eps = map int [1 ..< Suc N]"
  proof (rule nth_equalityI)
    show "length (map number eps) = length (map int [1 ..< Suc N])"
      by (simp add: lpf)
  next
    fix i assume "i < length (map number eps)"
    then have i: "i < N" by (simp add: lpf)
    then have "[1 ..< Suc N] ! i = Suc i" by (simp del: upt_Suc)
    with i show "map number eps ! i = map int [1 ..< Suc N] ! i"
      using num [OF i] by (simp add: lpf del: upt_Suc)
  qed
  have fields: "audio_url (eps ! i) = the (policy_locator (src ! i))
         \<and> title (eps ! i) = get_default (entry_title (src ! i)) (lit ''Untitled'')
         \<and> parse_date now (published_parsed (src ! i)) = Inr (published (eps ! i))"
    if "i < N" for i
  proof -
    from that len have "srt ! i \<in> set srt" by simp
    with urls have "snd (srt ! i) = the (policy_locator (fst (srt ! i)))"
      by (auto simp: extract_audio_url_policy)
    moreover have "src ! i = fst (srt ! i)" using that len by (simp add: src_def)
    ultimately show ?thesis
      using make_episode_Inr(2-4) [OF nth [OF that]] by simp
  qed
  have key: "sort_key_of (srt ! i) = the (published_parsed (src ! i))"
    if "i < N" "truthy (published_parsed (src ! i))" for i
    using that len by (simp add: sort_key_of_def src_def)
  have order: "number (eps ! i) < number (eps ! j)"
    if i: "i < N" and j: "j < N"
      and ti: "truthy (published_parsed (src ! i))" and tj: "truthy (published_parsed (src ! j))"
      and lt: "the (published_parsed (src ! i)) < the (published_parsed (src ! j))
               \<or> (6 \<le> length (the (published_parsed (src ! i)))
                   \<and> 6 \<le> length (the (published_parsed (src ! j)))
                   \<and> published (eps ! i) < published (eps ! j))"
    for i j
  proof -
    have "the (published_parsed (src ! i)) < the (published_parsed (src ! j))"
    proof (rule disjE [OF lt])
      assume a: "6 \<le> length (the (published_parsed (src ! i)))
                   \<and> 6 \<le> length (the (published_parsed (src ! j)))
                   \<and> published (eps ! i) < published (eps ! j)"
      have "published (eps ! i) = take 6 (the (published_parsed (src ! i)))"
        using fields [OF i] ti a by (intro parse_date_take [of now]) simp_all
      moreover have "published (eps ! j) = take 6 (the (published_parsed (src ! j)))"
        using fields [OF j] tj a by (intro parse_date_take [of now]) simp_all
      ultimately have "take 6 (the (published_parsed (src ! i))) < take 6 (the (published_parsed (src ! j)))"
        using a by simp
      then show ?thesis by (rule take_less_imp_less)
    qed
    then have "map sort_key_of srt ! i < map sort_key_of srt ! j"
      using key [OF i ti] key [OF j tj] i j len by simp
    then have "i < j"
      using sorted_nth_less [OF srtd, of i j] i j len by simp
    then show ?thesis using num [OF i] num [OF j] by simp
  qed
  have "map (\<lambda>e. if truthy (published_parsed e) then the (published_parsed e) else [0]) src
          = map sort_key_of srt"
    by (simp add: src_def sort_key_of_def)
  with srtd have keys:
    "sorted (map (\<lambda>e. if truthy (published_parsed e) then the (published_parsed e) else [0]) src)"
    by simp
  show "\<exists>src. mset src = mset (filter resolvable (entries f))
          \<and> length eps = length (filter resolvable (entries f))
          \<and> map number eps = map int [1 ..< Suc (length (filter resolvable (entries f)))]
          \<and> (\<forall>i < length src.
                audio_url (eps ! i) = the (policy_locator (src ! i))
              \<and> title (eps ! i) = get_default (entry_title (src ! i)) (lit ''Untitled'')
              \<and> parse_date now (published_parsed (src ! i)) = Inr (published (eps ! i)))
          \<and> sorted (map (\<lambda>e. if truthy (published_parsed e) then the (published_parsed e) else [0]) src)
          \<and> (\<forall>i < length src. \<forall>j < length src.
                truthy (published_parsed (src ! i)) \<and> truthy (published_parsed (src ! j))
                \<and> (the (published_parsed (src ! i)) < the (published_parsed (src ! j))
                    \<or> (6 \<le> length (the (published_parsed (src ! i)))
                        \<and> 6 \<le> length (the (published_parsed (src ! j)))
                        \<and> published (eps ! i) < published (eps ! j)))
                \<longrightarrow> number (eps ! i) < number (eps ! j))"
    apply (rule exI [of _ src])
    using m lpf nums fields order keys unfolding lsrc N_def [symmetric]
    by blast
qed

text \<open>
  On the feed whose entries stand in the order C, news, A, B, three entries have a
  resolvable audio locator, \<open>parse_feed\<close> returns, and A, B and C are numbered 1, 2 and 3.
\<close>

lemma parse_feed_CAB:
  "map title (projr (parse_feed now2025 feed_CAB)) = [lit ''A'', lit ''B'', lit ''C'']
   \<and> map description (projr (parse_feed now2025 feed_CAB)) = [[], [], lit ''c'']
   \<and> map audio_url (projr (parse_feed now2025 feed_CAB)) = [lit ''a.mp3'', lit ''b.mp3'', lit ''c.mp3'']
   \<and> \<not> isl (parse_feed now2025 feed_CAB)"
  by (simp add: feed_CAB_def feed_eval upt_rec)

theorem parse_feed_numbering_witness:
  "length (filter resolvable (entries feed_CAB)) = 3
   \<and> (\<exists>eps. parse_feed now2025 feed_CAB = Inr eps
         \<and> map number eps = [1, 2, 3]
         \<and> map title eps = [lit ''A'', lit ''B'', lit ''C'']
         \<and> map audio_url eps = [lit ''a.mp3'', lit ''b.mp3'', lit ''c.mp3'']
         \<and> map description eps = [[], [], lit ''c''])"
proof -
  have n: "length (filter resolvable (entries feed_CAB)) = 3"
    by (simp add: feed_CAB_def feed_eval)
  obtain eps where eps: "parse_feed now2025 feed_CAB = Inr eps"
    using parse_feed_CAB by (cases "parse_feed now2025 feed_CAB") simp_all
  from parse_feed_numbering [of now2025 feed_CAB eps] eps
  have "map number eps = map int [1 ..< Suc (length (filter resolvable (entries feed_CAB)))]"
    by blast
  then have "map number eps = [1, 2, 3]"
    by (simp add: n upt_rec)
  with n eps parse_feed_CAB show ?thesis by simp
qed

text \<open>
  The claim as it was stated fails on a feed with an entry that carries no publish time:
  the entry is numbered first, and its Episode record is given the time of the run, which
  is later than the publish time of the episode numbered after it.  It fails as well on
  a feed with an entry whose publish time has the year 0: \<open>parse_feed\<close> raises
  \<open>ValueError\<close> and returns no record, where one entry has a resolvable audio locator.
\<close>

theorem parse_feed_undated_counterexample:
  "(\<exists>eps. parse_feed now2025 feed_undated = Inr eps
      \<and> map title eps = [lit ''undated'', lit ''old'']
      \<and> map number eps = [1, 2]
      \<and> map published eps = [[2025, 1, 1, 0, 0, 0], [2020, 5, 1, 0, 0, 0]]
      \<and> published (eps ! 1) < published (eps ! 0))
   \<and> length (filter resolvable (entries feed_year0)) = 1
   \<and> parse_feed now2025 feed_year0 = Inl (ValueError (lit ''year 0 is out of range''))"
  by (simp add: feed_undated_def feed_year0_def feed_eval upt_rec str_int_def str_nat_digit)

section \<open>Properties of audio acquisition\<close>

lemma div_add_step: "0 < (step::nat) \<Longrightarrow> (k + step) div step = Suc (k div step)"
  by (metis div_add_self2 Suc_eq_plus1 less_numeral_extra(3))

lemma range_step_eq:
  "0 < step \<Longrightarrow>
   range_step start stop step = map (\<lambda>i. start + i * step) [0 ..< (stop - start + step - 1) div step]"
proof (induction start stop step rule: range_step.induct)
  case (1 start stop step)
  show ?case
  proof (cases "start < stop")
    case False
    then have "(stop - start + step - 1) div step = 0" using "1.prems" by simp
    with False show ?thesis by (simp add: range_step.simps [of start stop step])
  next
    case True
    define d where "d = stop - (start + step)"
    have cnt: "(stop - start + step - 1) div step = Suc ((d + step - 1) div step)"
    proof (cases "start + step < stop")
      case True
      define k where "k = d + step - 1"
      from True have e: "stop - start + step - 1 = k + step" by (simp add: d_def k_def)
      have "(k + step) div step = Suc (k div step)"
        using "1.prems" by (rule div_add_step)
      then show ?thesis by (simp only: e k_def)
    next
      case False
      define m where "m = stop - start - 1"
      from False True have m: "m < step" and e: "stop - start + step - 1 = m + step"
        by (simp_all add: m_def)
      from False have a: "d = 0" by (simp add: d_def)
      have "(m + step) div step = Suc (m div step)" using "1.prems" by (rule div_add_step)
      also have "m div step = 0" using m by simp
      finally have "(m + step) div step = 1" by simp
      then have "(stop - start + step - 1) div step = 1" by (simp only: e)
      moreover from a "1.prems" have "(d + step - 1) div step = 0" by simp
      ultimately show ?thesis by simp
    qed
    have "range_step start stop step = start # range_step (start + step) stop step"
      using True "1.prems" by (simp add: range_step.simps [of start stop step])
    also have "range_step (start + step) stop step
        = map (\<lambda>i. start + step + i * step) [0 ..< (d + step - 1) div step]"
      using "1.IH" True "1.prems" by (simp add: d_def)
    also have "start # map (\<lambda>i. start + step + i * step) [0 ..< (d + step - 1) div step]
        = map (\<lambda>i. start + i * step) [0 ..< Suc ((d + step - 1) div step)]"
      by (simp add: upt_conv_Cons map_Suc_upt [symmetric] del: upt_Suc)
    finally show ?thesis by (simp only: cnt)
  qed
qed

lemma chunk_path_neq: "ChunkPath p i \<noteq> p"
  by (induction p arbitrary: i) auto

lemma export_loop_ok:
  "\<forall>x \<in> set xs. export ev (fst x) \<noteq> None \<Longrightarrow>
   \<exists>fs'. export_loop ev base len xs chunks fs = (Inr (chunks @ map (\<lambda>x. ChunkPath base (fst x)) xs), fs')
     \<and> (\<forall>q. (\<forall>x \<in> set xs. q \<noteq> ChunkPath base (fst x)) \<longrightarrow> fs' q = fs q)
     \<and> (distinct (map fst xs) \<longrightarrow>
          (\<forall>x \<in> set xs. fs' (ChunkPath base (fst x))
             = Some \<lparr>st_size = the (export ev (fst x)),
                     audio_span = Some (snd x, min (snd x + chunk_ms) len)\<rparr>))"
proof (induction xs arbitrary: chunks fs)
  case Nil
  then show ?case by simp
next
  case (Cons x xs)
  obtain i start where x: "x = (i, start)" by (cases x)
  from Cons.prems x obtain n where n: "export ev i = Some n" by auto
  define fs1 where "fs1 = fs(ChunkPath base i \<mapsto>
      \<lparr>st_size = n, audio_span = Some (start, min (start + chunk_ms) len)\<rparr>)"
  from Cons.prems have rest: "\<forall>x \<in> set xs. export ev (fst x) \<noteq> None" by simp
  from Cons.IH [OF rest, of "chunks @ [ChunkPath base i]" fs1]
  obtain fs' where
    run: "export_loop ev base len xs (chunks @ [ChunkPath base i]) fs1
            = (Inr ((chunks @ [ChunkPath base i]) @ map (\<lambda>x. ChunkPath base (fst x)) xs), fs')"
    and frame: "\<forall>q. (\<forall>x \<in> set xs. q \<noteq> ChunkPath base (fst x)) \<longrightarrow> fs' q = fs1 q"
    and spans: "distinct (map fst xs) \<longrightarrow>
          (\<forall>x \<in> set xs. fs' (ChunkPath base (fst x))
             = Some \<lparr>st_size = the (export ev (fst x)),
                     audio_span = Some (snd x, min (snd x + chunk_ms) len)\<rparr>)"
    by blast
  have 1: "export_loop ev base len (x # xs) chunks fs
      = (Inr (chunks @ map (\<lambda>x. ChunkPath base (fst x)) (x # xs)), fs')"
    using run by (simp add: x n fs1_def)
  have 2: "\<forall>q. (\<forall>y \<in> set (x # xs). q \<noteq> ChunkPath base (fst y)) \<longrightarrow> fs' q = fs q"
    using frame by (simp add: x fs1_def)
  have 3: "distinct (map fst (x # xs)) \<longrightarrow>
          (\<forall>y \<in> set (x # xs). fs' (ChunkPath base (fst y))
             = Some \<lparr>st_size = the (export ev (fst y)),
                     audio_span = Some (snd y, min (snd y + chunk_ms) len)\<rparr>)"
  proof
    assume d: "distinct (map fst (x # xs))"
    then have "\<forall>y \<in> set xs. ChunkPath base i \<noteq> ChunkPath base (fst y)"
      by (auto simp: x)
    with frame have "fs' (ChunkPath base i) = fs1 (ChunkPath base i)" by blast
    then have "fs' (ChunkPath base i)
        = Some \<lparr>st_size = n, audio_span = Some (start, min (start + chunk_ms) len)\<rparr>"
      by (simp add: fs1_def)
    with spans d show "\<forall>y \<in> set (x # xs). fs' (ChunkPath base (fst y))
             = Some \<lparr>st_size = the (export ev (fst y)),
                     audio_span = Some (snd y, min (snd y + chunk_ms) len)\<rparr>"
      by (simp add: x n)
  qed
  from 1 2 3 show ?case by blast
qed

lemma export_loop_Inr:
  "export_loop ev base len xs chunks fs = (Inr cs, fs') \<Longrightarrow> \<forall>x \<in> set xs. export ev (fst x) \<noteq> None"
proof (induction xs arbitrary: chunks fs)
  case Nil
  then show ?case by simp
next
  case (Cons x xs)
  obtain i start where x: "x = (i, start)" by (cases x)
  show ?case
  proof (cases "export ev i")
    case None
    with Cons.prems x show ?thesis by simp
  next
    case (Some n)
    with Cons.prems x Cons.IH show ?thesis by (auto simp: x)
  qed
qed

lemma chunk_ms_pos: "0 < chunk_ms" by (simp add: chunk_ms_def)

lemma chunk_starts:
  "enumerate 0 (range_step 0 len chunk_ms)
     = map (\<lambda>i. (i, i * chunk_ms)) [0 ..< chunk_count len]"
  by (simp add: range_step_eq [OF chunk_ms_pos] chunk_count_def enumerate_eq_zip zip_map2
        zip_same_conv_map)

lemma chunk_count_ceiling:
  "len \<le> chunk_count len * chunk_ms \<and> (0 < len \<longrightarrow> (chunk_count len - 1) * chunk_ms < len)"
proof -
  define c where "c = chunk_ms"
  have c: "0 < c" by (simp add: c_def chunk_ms_pos)
  define k where "k = len + c - 1"
  have "k = (k div c) * c + k mod c" by simp
  moreover have "k mod c < c" using c by simp
  ultimately have up: "len \<le> (k div c) * c" unfolding k_def using c by linarith
  have lo: "(k div c - 1) * c < len" if "0 < len"
  proof -
    have "(k div c) * c \<le> k" by simp
    moreover have "k < len + c" using c by (simp add: k_def)
    ultimately have "(k div c) * c < len + c" by (rule le_less_trans)
    moreover have "(k div c) * c = (k div c - 1) * c + c"
    proof -
      from that c have "c \<le> k" by (simp add: k_def)
      then have "1 \<le> k div c" using c by (simp add: Suc_le_eq div_greater_zero_iff)
      then show ?thesis by (metis add.commute le_add_diff_inverse mult_Suc Suc_eq_plus1 plus_1_eq_Suc)
    qed
    ultimately show ?thesis by simp
  qed
  from up lo show ?thesis by (simp add: chunk_count_def k_def c_def)
qed

lemma split_small:
  "fs p = Some f \<Longrightarrow> st_size f \<le> WHISPER_MAX_BYTES \<Longrightarrow>
   split_audio_if_needed ev p fs = (Inr [p], fs)"
  by (simp add: split_audio_if_needed_def)

lemma split_large_ok:
  assumes f: "fs p = Some f" and big: "WHISPER_MAX_BYTES < st_size f"
    and pydub: "pydub_installed ev" and dec: "from_file ev p = Some len"
    and ex: "\<forall>i < chunk_count len. export ev i \<noteq> None"
  shows "\<exists>fs'. split_audio_if_needed ev p fs
            = (Inr (map (ChunkPath p) [0 ..< chunk_count len]), fs')
          \<and> fs' p = None
          \<and> (\<forall>i < chunk_count len. fs' (ChunkPath p i)
                = Some \<lparr>st_size = the (export ev i),
                        audio_span = Some (i * chunk_ms, min (i * chunk_ms + chunk_ms) len)\<rparr>)
          \<and> (\<forall>q. q \<noteq> p \<and> (\<forall>i < chunk_count len. q \<noteq> ChunkPath p i) \<longrightarrow> fs' q = fs q)"
proof -
  define xs where "xs = map (\<lambda>i. (i, i * chunk_ms)) [0 ..< chunk_count len]"
  have allok: "\<forall>x \<in> set xs. export ev (fst x) \<noteq> None" using ex by (auto simp: xs_def)
  have dist: "distinct (map fst xs)" by (simp add: xs_def comp_def)
  from export_loop_ok [OF allok, of p len "[]" fs] dist
  obtain fs1 where
    run: "export_loop ev p len xs [] fs = (Inr (map (\<lambda>x. ChunkPath p (fst x)) xs), fs1)"
    and frame: "\<forall>q. (\<forall>x \<in> set xs. q \<noteq> ChunkPath p (fst x)) \<longrightarrow> fs1 q = fs q"
    and spans: "\<forall>x \<in> set xs. fs1 (ChunkPath p (fst x))
             = Some \<lparr>st_size = the (export ev (fst x)),
                     audio_span = Some (snd x, min (snd x + chunk_ms) len)\<rparr>"
    by auto
  have names: "map (\<lambda>x. ChunkPath p (fst x)) xs = map (ChunkPath p) [0 ..< chunk_count len]"
    by (simp add: xs_def comp_def)
  have res: "split_audio_if_needed ev p fs
      = (Inr (map (ChunkPath p) [0 ..< chunk_count len]), fs1(p := None))"
    using f big pydub dec run names
    by (simp add: split_audio_if_needed_def chunk_starts xs_def [symmetric])
  have a: "(fs1(p := None)) p = None" by simp
  have b: "\<forall>i < chunk_count len. (fs1(p := None)) (ChunkPath p i)
                = Some \<lparr>st_size = the (export ev i),
                        audio_span = Some (i * chunk_ms, min (i * chunk_ms + chunk_ms) len)\<rparr>"
  proof (intro allI impI)
    fix i assume i: "i < chunk_count len"
    then have "(i, i * chunk_ms) \<in> set xs" by (auto simp: xs_def)
    with spans have "fs1 (ChunkPath p i) = Some \<lparr>st_size = the (export ev i),
                        audio_span = Some (i * chunk_ms, min (i * chunk_ms + chunk_ms) len)\<rparr>"
      by fastforce
    then show "(fs1(p := None)) (ChunkPath p i)
                = Some \<lparr>st_size = the (export ev i),
                        audio_span = Some (i * chunk_ms, min (i * chunk_ms + chunk_ms) len)\<rparr>"
      by (simp add: chunk_path_neq)
  qed
  have c: "\<forall>q. q \<noteq> p \<and> (\<forall>i < chunk_count len. q \<noteq> ChunkPath p i) \<longrightarrow> (fs1(p := None)) q = fs q"
    using frame by (auto simp: xs_def)
  from res a b c show ?thesis by blast
qed

lemma split_large_Inr:
  assumes f: "fs p = Some f" and big: "WHISPER_MAX_BYTES < st_size f"
    and res: "split_audio_if_needed ev p fs = (Inr chunks, fs')"
  shows "\<exists>len. pydub_installed ev \<and> from_file ev p = Some len
           \<and> (\<forall>i < chunk_count len. export ev i \<noteq> None)"
proof -
  from f big res have pydub: "pydub_installed ev"
    by (auto simp: split_audio_if_needed_def split: if_splits)
  from f big res pydub obtain len where len: "from_file ev p = Some len"
    by (cases "from_file ev p") (auto simp: split_audio_if_needed_def)
  from f big res pydub len obtain cs fs1 where
    "export_loop ev p len (enumerate 0 (range_step 0 len chunk_ms)) [] fs = (Inr cs, fs1)"
    by (auto simp: split_audio_if_needed_def split: prod.splits sum.splits)
  from export_loop_Inr [OF this] have "\<forall>i < chunk_count len. export ev i \<noteq> None"
    by (simp add: chunk_starts)
  with pydub len show ?thesis by blast
qed

lemma download_loop_file:
  "download_loop ev dest attempts fs = (Inr raw, fs1) \<Longrightarrow> raw = dest \<and> (\<exists>n. fs1 dest = Some (written n))"
  by (cases attempts) (auto split: attempt.splits)

text \<open>
  No attempt is repeated: when the first attempt does not complete, \<open>download_audio\<close> is
  left by \<open>AttributeError\<close>, and the file holds what that attempt wrote.
\<close>

lemma download_audio_first_attempt_fails:
  assumes "mkdir ev tmp" "http_get ev 1 = Interrupted w \<or> http_get ev 1 = OtherFailure w"
  shows "\<exists>dest. download_audio ev url tmp n fs
           = (Inl AttributeError, partial_file dest w (fs(dest := None)))"
  using assms by (auto simp: download_audio_def Let_def DOWNLOAD_RETRIES_def upt_rec)

lemma download_audio_mkdir_fails:
  "\<not> mkdir ev tmp \<Longrightarrow> download_audio ev url tmp n fs = (Inl OSError, fs)"
  by (simp add: download_audio_def)

lemma download_audio_file:
  assumes "download_audio ev url tmp n fs = (Inr raw, fs1)"
  shows "\<exists>size. fs1 raw = Some (written size)"
proof -
  from assms obtain dest where "download_loop ev dest [1 ..< DOWNLOAD_RETRIES + 1] fs = (Inr raw, fs1)"
    unfolding download_audio_def Let_def by (auto split: if_splits)
  then show ?thesis using download_loop_file [of ev dest _ fs raw fs1] by auto
qed

text \<open>
  Claim C4.  A file of at most 24 MB is returned as the one chunk, and nothing changes on
  disk; this holds in particular for the file that a download returned.  For a file over
  24 MB, when pydub is installed, decodes the file to \<open>len\<close> milliseconds and exports every
  chunk, the function returns \<open>chunk_count len\<close> chunks, numbered in temporal order: chunk
  \<open>i\<close> holds the audio from \<open>i\<close> times ten minutes up to ten minutes later or the end,
  so at most ten minutes; the original file is gone and no other file has changed.
  Whenever the function returns for a file over 24 MB, this is what it returns.
  \<open>chunk_count len\<close> is the duration over ten minutes rounded up: the least number of
  ten-minute chunks that cover \<open>len\<close>.
\<close>

theorem split_audio_chunks:
  "(fs p = Some f \<and> st_size f \<le> WHISPER_MAX_BYTES
      \<longrightarrow> split_audio_if_needed ev p fs = (Inr [p], fs))
   \<and> (fs p = Some f \<and> WHISPER_MAX_BYTES < st_size f \<and> pydub_installed ev
       \<and> from_file ev p = Some len \<and> (\<forall>i < chunk_count len. export ev i \<noteq> None)
      \<longrightarrow> (\<exists>fs'. split_audio_if_needed ev p fs
                    = (Inr (map (ChunkPath p) [0 ..< chunk_count len]), fs')
            \<and> fs' p = None
            \<and> (\<forall>i < chunk_count len. fs' (ChunkPath p i)
                  = Some \<lparr>st_size = the (export ev i),
                          audio_span = Some (i * chunk_ms, min (i * chunk_ms + chunk_ms) len)\<rparr>)
            \<and> (\<forall>q. q \<noteq> p \<and> (\<forall>i < chunk_count len. q \<noteq> ChunkPath p i) \<longrightarrow> fs' q = fs q)))
   \<and> (fs p = Some f \<and> WHISPER_MAX_BYTES < st_size f
       \<and> split_audio_if_needed ev p fs = (Inr chunks, fs1)
      \<longrightarrow> (\<exists>d. from_file ev p = Some d
            \<and> chunks = map (ChunkPath p) [0 ..< chunk_count d]
            \<and> fs1 p = None
            \<and> (\<forall>i < chunk_count d. \<exists>file. fs1 (chunks ! i) = Some file
                  \<and> audio_span file = Some (i * chunk_ms, min (i * chunk_ms + chunk_ms) d))))
   \<and> min (i * chunk_ms + chunk_ms) len - i * chunk_ms \<le> chunk_ms
   \<and> len \<le> chunk_count len * chunk_ms
   \<and> (0 < len \<longrightarrow> (chunk_count len - 1) * chunk_ms < len)
   \<and> (download_audio ev url tmp n fs0 = (Inr raw, fs2)
      \<longrightarrow> (\<exists>file. fs2 raw = Some file
            \<and> (st_size file \<le> WHISPER_MAX_BYTES
                 \<longrightarrow> split_audio_if_needed ev raw fs2 = (Inr [raw], fs2))))"
proof -
  have small: "fs p = Some f \<and> st_size f \<le> WHISPER_MAX_BYTES
      \<longrightarrow> split_audio_if_needed ev p fs = (Inr [p], fs)"
    by (simp add: split_small)
  have large: "fs p = Some f \<and> WHISPER_MAX_BYTES < st_size f \<and> pydub_installed ev
       \<and> from_file ev p = Some len \<and> (\<forall>i < chunk_count len. export ev i \<noteq> None)
      \<longrightarrow> (\<exists>fs'. split_audio_if_needed ev p fs
                    = (Inr (map (ChunkPath p) [0 ..< chunk_count len]), fs')
            \<and> fs' p = None
            \<and> (\<forall>i < chunk_count len. fs' (ChunkPath p i)
                  = Some \<lparr>st_size = the (export ev i),
                          audio_span = Some (i * chunk_ms, min (i * chunk_ms + chunk_ms) len)\<rparr>)
            \<and> (\<forall>q. q \<noteq> p \<and> (\<forall>i < chunk_count len. q \<noteq> ChunkPath p i) \<longrightarrow> fs' q = fs q))"
    using split_large_ok [of fs p f ev len] by blast
  have returned: "fs p = Some f \<and> WHISPER_MAX_BYTES < st_size f
       \<and> split_audio_if_needed ev p fs = (Inr chunks, fs1)
      \<longrightarrow> (\<exists>d. from_file ev p = Some d
            \<and> chunks = map (ChunkPath p) [0 ..< chunk_count d]
            \<and> fs1 p = None
            \<and> (\<forall>i < chunk_count d. \<exists>file. fs1 (chunks ! i) = Some file
                  \<and> audio_span file = Some (i * chunk_ms, min (i * chunk_ms + chunk_ms) d)))"
  proof
    assume a: "fs p = Some f \<and> WHISPER_MAX_BYTES < st_size f
       \<and> split_audio_if_needed ev p fs = (Inr chunks, fs1)"
    then have f: "fs p = Some f" and big: "WHISPER_MAX_BYTES < st_size f"
      and res: "split_audio_if_needed ev p fs = (Inr chunks, fs1)" by simp_all
    from split_large_Inr [OF f big res] obtain d where
      pydub: "pydub_installed ev" and d: "from_file ev p = Some d"
      and ex: "\<forall>i < chunk_count d. export ev i \<noteq> None" by blast
    from split_large_ok [of fs p f ev d] f big pydub d ex
    obtain fs' where
      r: "split_audio_if_needed ev p fs = (Inr (map (ChunkPath p) [0 ..< chunk_count d]), fs')"
      and g: "fs' p = None"
      and sp: "\<forall>i < chunk_count d. fs' (ChunkPath p i)
                  = Some \<lparr>st_size = the (export ev i),
                          audio_span = Some (i * chunk_ms, min (i * chunk_ms + chunk_ms) d)\<rparr>"
      by blast
    from r res have c: "chunks = map (ChunkPath p) [0 ..< chunk_count d]" and same: "fs1 = fs'"
      by simp_all
    from g same have gone: "fs1 p = None" by simp
    from sp same have spans: "\<forall>i < chunk_count d. fs1 (ChunkPath p i)
                  = Some \<lparr>st_size = the (export ev i),
                          audio_span = Some (i * chunk_ms, min (i * chunk_ms + chunk_ms) d)\<rparr>"
      by simp
    have "\<forall>i < chunk_count d. \<exists>file. fs1 (chunks ! i) = Some file
                  \<and> audio_span file = Some (i * chunk_ms, min (i * chunk_ms + chunk_ms) d)"
      using spans by (simp add: c)
    with d c gone show "\<exists>d. from_file ev p = Some d
            \<and> chunks = map (ChunkPath p) [0 ..< chunk_count d]
            \<and> fs1 p = None
            \<and> (\<forall>i < chunk_count d. \<exists>file. fs1 (chunks ! i) = Some file
                  \<and> audio_span file = Some (i * chunk_ms, min (i * chunk_ms + chunk_ms) d))"
      by blast
  qed
  have short: "min (i * chunk_ms + chunk_ms) len - i * chunk_ms \<le> chunk_ms" by simp
  have acquired: "download_audio ev url tmp n fs0 = (Inr raw, fs2)
      \<longrightarrow> (\<exists>file. fs2 raw = Some file
            \<and> (st_size file \<le> WHISPER_MAX_BYTES
                 \<longrightarrow> split_audio_if_needed ev raw fs2 = (Inr [raw], fs2)))"
  proof
    assume "download_audio ev url tmp n fs0 = (Inr raw, fs2)"
    from download_audio_file [OF this] obtain size where sz: "fs2 raw = Some (written size)" by blast
    have "st_size (written size) \<le> WHISPER_MAX_BYTES
            \<longrightarrow> split_audio_if_needed ev raw fs2 = (Inr [raw], fs2)"
      using split_small [of fs2 raw "written size" ev] sz by blast
    with sz show "\<exists>file. fs2 raw = Some file
            \<and> (st_size file \<le> WHISPER_MAX_BYTES
                 \<longrightarrow> split_audio_if_needed ev raw fs2 = (Inr [raw], fs2))"
      by blast
  qed
  have c1: "len \<le> chunk_count len * chunk_ms"
    and c2: "0 < len \<longrightarrow> (chunk_count len - 1) * chunk_ms < len"
    using chunk_count_ceiling [of len] by simp_all
  from small large returned short c1 c2 acquired show ?thesis
    by (intro conjI) assumption+
qed

lemma chunk_count_hour: "chunk_count 3600000 = 6"
  by (simp add: chunk_count_def chunk_ms_def)

theorem split_audio_chunks_witness:
  "fst (split_audio_if_needed env_ok raw7 (Map.empty(raw7 \<mapsto> written 1000))) = Inr [raw7]
   \<and> fst (split_audio_if_needed env_ok raw7 (Map.empty(raw7 \<mapsto> written (30 * 1024 * 1024))))
       = Inr [ChunkPath raw7 0, ChunkPath raw7 1, ChunkPath raw7 2, ChunkPath raw7 3,
              ChunkPath raw7 4, ChunkPath raw7 5]
   \<and> snd (split_audio_if_needed env_ok raw7 (Map.empty(raw7 \<mapsto> written (30 * 1024 * 1024)))) raw7
       = None
   \<and> snd (split_audio_if_needed env_ok raw7 (Map.empty(raw7 \<mapsto> written (30 * 1024 * 1024))))
         (ChunkPath raw7 5)
       = Some \<lparr>st_size = 5000000, audio_span = Some (3000000, 3600000)\<rparr>"
proof -
  define small where "small = Map.empty(raw7 \<mapsto> written 1000)"
  define big where "big = Map.empty(raw7 \<mapsto> written (30 * 1024 * 1024))"
  have s: "small raw7 = Some (written 1000) \<and> st_size (written 1000) \<le> WHISPER_MAX_BYTES"
    by (simp add: small_def written_def WHISPER_MAX_BYTES_def)
  have b: "big raw7 = Some (written (30 * 1024 * 1024))
      \<and> WHISPER_MAX_BYTES < st_size (written (30 * 1024 * 1024))
      \<and> pydub_installed env_ok \<and> from_file env_ok raw7 = Some 3600000
      \<and> (\<forall>i < chunk_count 3600000. export env_ok i \<noteq> None)"
    by (simp add: big_def written_def WHISPER_MAX_BYTES_def env_ok_def)
  have 1: "split_audio_if_needed env_ok raw7 small = (Inr [raw7], small)"
    by (rule split_audio_chunks [of small raw7 "written 1000" env_ok, THEN conjunct1, THEN mp, OF s])
  have "\<exists>fs'. split_audio_if_needed env_ok raw7 big
                    = (Inr (map (ChunkPath raw7) [0 ..< chunk_count 3600000]), fs')
            \<and> fs' raw7 = None
            \<and> (\<forall>i < chunk_count 3600000. fs' (ChunkPath raw7 i)
                  = Some \<lparr>st_size = the (export env_ok i),
                          audio_span = Some (i * chunk_ms, min (i * chunk_ms + chunk_ms) 3600000)\<rparr>)
            \<and> (\<forall>q. q \<noteq> raw7 \<and> (\<forall>i < chunk_count 3600000. q \<noteq> ChunkPath raw7 i) \<longrightarrow> fs' q = big q)"
    by (rule split_audio_chunks [of big raw7 "written (30 * 1024 * 1024)" env_ok 3600000,
          THEN conjunct2, THEN conjunct1, THEN mp, OF b])
  then obtain fs' where
    r: "split_audio_if_needed env_ok raw7 big = (Inr (map (ChunkPath raw7) [0 ..< chunk_count 3600000]), fs')"
    and g: "fs' raw7 = None"
    and sp: "\<forall>i < chunk_count 3600000. fs' (ChunkPath raw7 i)
                  = Some \<lparr>st_size = the (export env_ok i),
                          audio_span = Some (i * chunk_ms, min (i * chunk_ms + chunk_ms) 3600000)\<rparr>"
    by (elim exE conjE)
  from sp have "fs' (ChunkPath raw7 5)
      = Some \<lparr>st_size = the (export env_ok 5),
              audio_span = Some (5 * chunk_ms, min (5 * chunk_ms + chunk_ms) 3600000)\<rparr>"
    by (simp add: chunk_count_hour)
  then have 5: "fs' (ChunkPath raw7 5) = Some \<lparr>st_size = 5000000, audio_span = Some (3000000, 3600000)\<rparr>"
    by (simp add: env_ok_def chunk_ms_def)
  have names: "map (ChunkPath raw7) [0 ..< chunk_count 3600000]
      = [ChunkPath raw7 0, ChunkPath raw7 1, ChunkPath raw7 2, ChunkPath raw7 3,
         ChunkPath raw7 4, ChunkPath raw7 5]"
    by (simp add: chunk_count_hour upt_rec)
  show ?thesis
    unfolding small_def [symmetric] big_def [symmetric]
    by (simp add: 1 r g 5 names)
qed

section \<open>Properties of publication\<close>

lemma truncated_helpers [simp]:
  "truncated_block (heading2 t)" "truncated_block (heading3 t)" "truncated_block (paragraph_block t)"
  "truncated_block (callout t e)" "truncated_block divider"
  by (simp_all add: truncated_block_def heading2_def heading3_def paragraph_block_def callout_def
        divider_def)

lemma truncated_bulleted_list: "list_all truncated_block (bulleted_list items empty_text)"
proof (cases "items = []")
  case True
  then show ?thesis by (simp add: bulleted_list_def)
next
  case False
  then show ?thesis by (simp add: bulleted_list_def list_all_iff truncated_block_def)
qed

lemma truncated_recipe_blocks: "list_all truncated_block (recipe_blocks r)"
  by (simp add: recipe_blocks_def truncated_bulleted_list)

lemma truncated_recipes: "list_all truncated_block (concat (map recipe_blocks rs))"
  by (induction rs) (simp_all add: truncated_recipe_blocks)

lemma truncated_build_blocks: "list_all truncated_block (build_blocks ep ins)"
  by (simp add: build_blocks_def truncated_bulleted_list truncated_recipes)

lemma list_all_update:
  "list_all P al \<Longrightarrow> P (k, v) \<Longrightarrow> list_all P (AList.update k v al)"
  by (induction al) auto

lemma list_all_foldl_update:
  "list_all P acc \<Longrightarrow> list_all P cands \<Longrightarrow>
   list_all P (foldl (\<lambda>props kv. if fst kv \<in> S then AList.update (fst kv) (snd kv) props else props)
                 acc cands)"
  by (induction cands arbitrary: acc) (auto simp: list_all_update)

lemma truncated_build_properties: "list_all truncated_property (build_properties ev ep existing)"
  unfolding build_properties_def
  by (rule list_all_foldl_update) (simp_all add: truncated_property_def)

lemma concat_batches:
  "concat (map (\<lambda>i. take L (drop (i * L) xs)) [0 ..< n]) = take (n * L) xs"
proof (induction n)
  case 0
  then show ?case by simp
next
  case (Suc n)
  have "Suc n * L = n * L + L" by simp
  then have "take (Suc n * L) xs = take (n * L) xs @ take L (drop (n * L) xs)"
    by (simp only: take_add)
  with Suc show ?case by simp
qed

lemma append_loop_ok:
  "\<forall>i \<in> set offsets. children_append ev i \<Longrightarrow>
   append_loop ev page_id remaining offsets calls
     = (None, calls @ map (\<lambda>i. BlocksAppend page_id (take NOTION_BLOCK_LIMIT (drop i remaining))) offsets)"
  by (induction offsets arbitrary: calls) simp_all

lemma append_loop_calls:
  "list_all truncated_call calls \<Longrightarrow> list_all truncated_block remaining \<Longrightarrow>
   list_all truncated_call (snd (append_loop ev page_id remaining offsets calls))"
proof (induction offsets arbitrary: calls)
  case Nil
  then show ?case by simp
next
  case (Cons i offsets)
  have "list_all truncated_block (take NOTION_BLOCK_LIMIT (drop i remaining))"
    using Cons.prems(2) by (auto simp: list_all_iff dest: in_set_takeD in_set_dropD)
  then have "list_all truncated_call
      (calls @ [BlocksAppend page_id (take NOTION_BLOCK_LIMIT (drop i remaining))])"
    using Cons.prems(1) by (simp add: truncated_call_def [of "BlocksAppend page_id (take NOTION_BLOCK_LIMIT (drop i remaining))"])
  with Cons.IH Cons.prems(2) show ?case by simp
qed

lemma block_limit_pos: "0 < NOTION_BLOCK_LIMIT" by (simp add: NOTION_BLOCK_LIMIT_def)

lemma create_episode_page_ok:
  assumes created: "pages_create ev = Some (page_id, url)"
    and appended: "\<forall>i. children_append ev i"
  shows "create_episode_page ev ep ins db =
     (Inr url,
      DatabasesUpdate db
      # PagesCreate db (build_properties ev ep (ensure_database_properties ev))
          (take NOTION_BLOCK_LIMIT (build_blocks ep ins))
      # map (\<lambda>i. BlocksAppend page_id
                 (take NOTION_BLOCK_LIMIT
                    (drop (i * NOTION_BLOCK_LIMIT) (drop NOTION_BLOCK_LIMIT (build_blocks ep ins)))))
          [0 ..< (length (build_blocks ep ins) - NOTION_BLOCK_LIMIT + (NOTION_BLOCK_LIMIT - 1))
                   div NOTION_BLOCK_LIMIT])"
proof -
  define rem where "rem = drop NOTION_BLOCK_LIMIT (build_blocks ep ins)"
  define offsets where "offsets = range_step 0 (length rem) NOTION_BLOCK_LIMIT"
  have off: "offsets = map (\<lambda>i. i * NOTION_BLOCK_LIMIT)
      [0 ..< (length rem + NOTION_BLOCK_LIMIT - 1) div NOTION_BLOCK_LIMIT]"
    by (simp add: offsets_def range_step_eq [OF block_limit_pos])
  have all: "\<forall>i \<in> set offsets. children_append ev i" using appended by simp
  have n: "length rem + NOTION_BLOCK_LIMIT - 1
      = length (build_blocks ep ins) - NOTION_BLOCK_LIMIT + (NOTION_BLOCK_LIMIT - 1)"
    using block_limit_pos by (simp add: rem_def)
  define calls0 where "calls0 =
      [DatabasesUpdate db,
       PagesCreate db (build_properties ev ep (ensure_database_properties ev))
         (take NOTION_BLOCK_LIMIT (build_blocks ep ins))]"
  have al: "append_loop ev page_id rem offsets calls0
      = (None, calls0 @ map (\<lambda>i. BlocksAppend page_id (take NOTION_BLOCK_LIMIT (drop i rem))) offsets)"
    by (rule append_loop_ok [OF all])
  have "create_episode_page ev ep ins db =
      (case append_loop ev page_id rem offsets calls0 of
         (Some e, calls') \<Rightarrow> (Inl e, calls')
       | (None, calls') \<Rightarrow> (Inr (snd (page_id, url)), calls'))"
    by (simp add: create_episode_page_def Let_def created rem_def offsets_def calls0_def)
  also have "\<dots> = (Inr url,
      calls0 @ map (\<lambda>i. BlocksAppend page_id (take NOTION_BLOCK_LIMIT (drop i rem))) offsets)"
    by (simp add: al)
  finally have "create_episode_page ev ep ins db = (Inr url,
      calls0 @ map (\<lambda>i. BlocksAppend page_id (take NOTION_BLOCK_LIMIT (drop i rem))) offsets)" .
  then show ?thesis
    unfolding off n calls0_def by (simp add: comp_def rem_def)
qed

text \<open>
  Claim C9.  When the creation call and every append call return, publication issues, after
  the schema update, exactly one page-creation call with the first \<open>min B 100\<close> of the \<open>B\<close>
  rendered blocks, followed by one append call for each of \<open>(B - 100)\<close> over 100, rounded
  up, batches (none when \<open>B \<le> 100\<close>); a batch has at most 100 blocks, and the payloads of
  the calls, in order, are the rendered blocks.  Every text content string of a rendered
  block and of a property has at most 2000 characters, and so has every text content
  string of every call that is issued, also when a call fails.  (A number, a date and a
  url property carry no text content.)
\<close>

theorem create_episode_page_batches:
  "(pages_create ev = Some (page_id, url) \<and> (\<forall>i. children_append ev i) \<longrightarrow>
      (\<exists>batches.
         create_episode_page ev ep ins db =
           (Inr url,
            DatabasesUpdate db
            # PagesCreate db (build_properties ev ep (ensure_database_properties ev))
                (take NOTION_BLOCK_LIMIT (build_blocks ep ins))
            # map (BlocksAppend page_id) batches)
         \<and> length (take NOTION_BLOCK_LIMIT (build_blocks ep ins))
             = min (length (build_blocks ep ins)) NOTION_BLOCK_LIMIT
         \<and> length batches
             = (length (build_blocks ep ins) - NOTION_BLOCK_LIMIT + (NOTION_BLOCK_LIMIT - 1))
                 div NOTION_BLOCK_LIMIT
         \<and> list_all (\<lambda>b. length b \<le> NOTION_BLOCK_LIMIT) batches
         \<and> take NOTION_BLOCK_LIMIT (build_blocks ep ins) @ concat batches = build_blocks ep ins))
   \<and> list_all truncated_block (build_blocks ep ins)
   \<and> list_all truncated_property (build_properties ev ep existing)
   \<and> list_all truncated_call (snd (create_episode_page ev ep ins db))"
proof -
  define B where "B = build_blocks ep ins"
  define L where "L = NOTION_BLOCK_LIMIT"
  define n where "n = (length B - L + (L - 1)) div L"
  define batches where "batches = map (\<lambda>i. take L (drop (i * L) (drop L B))) [0 ..< n]"
  have Lpos: "0 < L" by (simp add: L_def block_limit_pos)
  have ok: "\<exists>batches.
         create_episode_page ev ep ins db =
           (Inr url,
            DatabasesUpdate db
            # PagesCreate db (build_properties ev ep (ensure_database_properties ev)) (take L B)
            # map (BlocksAppend page_id) batches)
         \<and> length (take L B) = min (length B) L
         \<and> length batches = (length B - L + (L - 1)) div L
         \<and> list_all (\<lambda>b. length b \<le> L) batches
         \<and> take L B @ concat batches = B"
    if created: "pages_create ev = Some (page_id, url)" and appended: "\<forall>i. children_append ev i"
  proof -
    have run: "create_episode_page ev ep ins db =
           (Inr url,
            DatabasesUpdate db
            # PagesCreate db (build_properties ev ep (ensure_database_properties ev)) (take L B)
            # map (BlocksAppend page_id) batches)"
      using create_episode_page_ok [OF created appended, of ep ins db]
      by (simp add: batches_def B_def L_def n_def comp_def)
    have len: "length batches = (length B - L + (L - 1)) div L"
      by (simp add: batches_def n_def)
    have short: "list_all (\<lambda>b. length b \<le> L) batches"
      by (simp add: batches_def list_all_iff)
    have cover: "length (drop L B) \<le> n * L"
    proof -
      define k where "k = length B - L + (L - 1)"
      have "k = (k div L) * L + k mod L" by simp
      moreover have "k mod L < L" using Lpos by simp
      ultimately have "length B - L \<le> (k div L) * L" unfolding k_def using Lpos by linarith
      then show ?thesis by (simp add: n_def k_def)
    qed
    have "concat batches = take (n * L) (drop L B)"
      unfolding batches_def by (rule concat_batches)
    also have "\<dots> = drop L B" using cover by simp
    finally have whole: "take L B @ concat batches = B" by simp
    have first: "length (take L B) = min (length B) L" by simp
    from run first len short whole show ?thesis by blast
  qed
  have blocks: "list_all truncated_block B" unfolding B_def by (rule truncated_build_blocks)
  have props: "list_all truncated_property (build_properties ev ep existing)"
    by (rule truncated_build_properties)
  have calls: "list_all truncated_call (snd (create_episode_page ev ep ins db))"
  proof -
    have first: "list_all truncated_block (take L B)"
      using blocks by (auto simp: list_all_iff dest: in_set_takeD)
    have rest: "list_all truncated_block (drop L B)"
      using blocks by (auto simp: list_all_iff dest: in_set_dropD)
    have start: "list_all truncated_call
        [DatabasesUpdate db,
         PagesCreate db (build_properties ev ep (ensure_database_properties ev)) (take L B)]"
      using first truncated_build_properties [of ev ep "ensure_database_properties ev"]
      by (simp add: truncated_call_def)
    show ?thesis
    proof (cases "pages_create ev")
      case None
      with start show ?thesis
        by (simp add: create_episode_page_def Let_def B_def L_def)
    next
      case (Some response)
      obtain r c where ac: "append_loop ev (fst response) (drop L B)
          (range_step 0 (length (drop L B)) L)
          [DatabasesUpdate db,
           PagesCreate db (build_properties ev ep (ensure_database_properties ev)) (take L B)]
          = (r, c)"
        by (cases "append_loop ev (fst response) (drop L B)
          (range_step 0 (length (drop L B)) L)
          [DatabasesUpdate db,
           PagesCreate db (build_properties ev ep (ensure_database_properties ev)) (take L B)]")
      from append_loop_calls [OF start rest, of ev "fst response"
          "range_step 0 (length (drop L B)) L"] ac
      have c: "list_all truncated_call c" by simp
      have "snd (create_episode_page ev ep ins db) = c"
        using ac by (cases r) (simp_all add: create_episode_page_def Let_def Some B_def L_def)
      with c show ?thesis by simp
    qed
  qed
  have "pages_create ev = Some (page_id, url) \<and> (\<forall>i. children_append ev i) \<longrightarrow>
      (\<exists>batches.
         create_episode_page ev ep ins db =
           (Inr url,
            DatabasesUpdate db
            # PagesCreate db (build_properties ev ep (ensure_database_properties ev)) (take L B)
            # map (BlocksAppend page_id) batches)
         \<and> length (take L B) = min (length B) L
         \<and> length batches = (length B - L + (L - 1)) div L
         \<and> list_all (\<lambda>b. length b \<le> L) batches
         \<and> take L B @ concat batches = B)"
    using ok by blast
  with blocks props calls show ?thesis
    unfolding B_def L_def by (intro conjI) assumption+
qed

lemma blocks250: "length (build_blocks episode7 insights250) = 268"
  by (simp add: build_blocks_def insights250_def episode7_def bulleted_list_def lit_def)

theorem create_episode_page_batches_witness:
  "fst (create_episode_page env_ok episode7 insights250 (lit ''db'')) = Inr (lit ''url'')
   \<and> length (snd (create_episode_page env_ok episode7 insights250 (lit ''db''))) = 4
   \<and> length (build_blocks episode7 insights250) = 268
   \<and> hd (build_blocks episode7 insights250) = Callout (replicate 2000 120) [127866]"
proof -
  have h: "pages_create env_ok = Some (lit ''id'', lit ''url'') \<and> (\<forall>i. children_append env_ok i)"
    by (simp add: env_ok_def)
  have "\<exists>batches.
         create_episode_page env_ok episode7 insights250 (lit ''db'') =
           (Inr (lit ''url''),
            DatabasesUpdate (lit ''db'')
            # PagesCreate (lit ''db'')
                (build_properties env_ok episode7 (ensure_database_properties env_ok))
                (take NOTION_BLOCK_LIMIT (build_blocks episode7 insights250))
            # map (BlocksAppend (lit ''id'')) batches)
         \<and> length (take NOTION_BLOCK_LIMIT (build_blocks episode7 insights250))
             = min (length (build_blocks episode7 insights250)) NOTION_BLOCK_LIMIT
         \<and> length batches
             = (length (build_blocks episode7 insights250) - NOTION_BLOCK_LIMIT
                  + (NOTION_BLOCK_LIMIT - 1)) div NOTION_BLOCK_LIMIT
         \<and> list_all (\<lambda>b. length b \<le> NOTION_BLOCK_LIMIT) batches
         \<and> take NOTION_BLOCK_LIMIT (build_blocks episode7 insights250) @ concat batches
             = build_blocks episode7 insights250"
    by (rule create_episode_page_batches [of env_ok "lit ''id''" "lit ''url''" episode7 insights250
          "lit ''db''", THEN conjunct1, THEN mp, OF h])
  then obtain batches where
    run: "create_episode_page env_ok episode7 insights250 (lit ''db'') =
           (Inr (lit ''url''),
            DatabasesUpdate (lit ''db'')
            # PagesCreate (lit ''db'')
                (build_properties env_ok episode7 (ensure_database_properties env_ok))
                (take NOTION_BLOCK_LIMIT (build_blocks episode7 insights250))
            # map (BlocksAppend (lit ''id'')) batches)"
    and len: "length batches
             = (length (build_blocks episode7 insights250) - NOTION_BLOCK_LIMIT
                  + (NOTION_BLOCK_LIMIT - 1)) div NOTION_BLOCK_LIMIT"
    by (elim exE conjE)
  from len have "length batches = 2" by (simp add: blocks250 NOTION_BLOCK_LIMIT_def)
  moreover have "hd (build_blocks episode7 insights250) = Callout (replicate 2000 120) [127866]"
    by (simp add: build_blocks_def insights250_def callout_def NOTION_TEXT_LIMIT_def)
  ultimately show ?thesis by (simp add: run blocks250)
qed

section \<open>Properties of insight extraction\<close>

lemma lit_eq_iff [simp]: "lit a = lit b \<longleftrightarrow> a = b"
  unfolding lit_def by (rule inj_map_eq_map) (simp add: inj_on_def)















lemma try_block_split_fails:
  "download_audio ev (audio_url ep) (temp_dir config) (number ep) (files w) = (Inr raw, fs1)
   \<Longrightarrow> split_audio_if_needed ev raw fs1 = (Inl e, fs2)
   \<Longrightarrow> try_block ev ep config w = ([], Inl e, w\<lparr>files := fs2\<rparr>)"
  by (simp add: try_block_def)

lemma try_block_transcribe_fails:
  "download_audio ev (audio_url ep) (temp_dir config) (number ep) (files w) = (Inr raw, fs1)
   \<Longrightarrow> split_audio_if_needed ev raw fs1 = (Inr paths, fs2)
   \<Longrightarrow> transcribe ev paths fs2 = Inl e
   \<Longrightarrow> try_block ev ep config w = (paths, Inl e, w\<lparr>files := fs2\<rparr>)"
  by (simp add: try_block_def)

lemma try_block_extract_fails:
  "download_audio ev (audio_url ep) (temp_dir config) (number ep) (files w) = (Inr raw, fs1)
   \<Longrightarrow> split_audio_if_needed ev raw fs1 = (Inr paths, fs2)
   \<Longrightarrow> transcribe ev paths fs2 = Inr transcript
   \<Longrightarrow> extract_insights ev transcript (title ep) (description ep) = Inl e
   \<Longrightarrow> try_block ev ep config w = (paths, Inl e, w\<lparr>files := fs2\<rparr>)"
  by (simp add: try_block_def)

lemma try_block_publish_fails:
  "download_audio ev (audio_url ep) (temp_dir config) (number ep) (files w) = (Inr raw, fs1)
   \<Longrightarrow> split_audio_if_needed ev raw fs1 = (Inr paths, fs2)
   \<Longrightarrow> transcribe ev paths fs2 = Inr transcript
   \<Longrightarrow> extract_insights ev transcript (title ep) (description ep) = Inr ins
   \<Longrightarrow> create_episode_page ev ep ins (notion_database_id config) = (Inl e, calls)
   \<Longrightarrow> try_block ev ep config w
         = (paths, Inl e, w\<lparr>files := fs2, notion_calls := notion_calls w @ calls\<rparr>)"
  by (simp add: try_block_def)

lemma try_block_published:
  "download_audio ev (audio_url ep) (temp_dir config) (number ep) (files w) = (Inr raw, fs1)
   \<Longrightarrow> split_audio_if_needed ev raw fs1 = (Inr paths, fs2)
   \<Longrightarrow> transcribe ev paths fs2 = Inr transcript
   \<Longrightarrow> extract_insights ev transcript (title ep) (description ep) = Inr ins
   \<Longrightarrow> create_episode_page ev ep ins (notion_database_id config) = (Inr url, calls)
   \<Longrightarrow> try_block ev ep config w
         = (paths, Inr url,
            w\<lparr>files := fs2, notion_calls := notion_calls w @ calls,
              manager := mark_processed (utcnow ev) (manager w) (number ep) url (title ep)\<rparr>)"
  by (simp add: try_block_def)






section \<open>Properties of the processing of one episode\<close>






lemma is_processed_mark_mono: "is_processed sm k \<Longrightarrow> is_processed (mark_processed now sm n url t) k"
  by (simp add: is_processed_def mark_processed_def save_def dom_update)

lemma lit_Nil [simp]: "lit s = [] \<longleftrightarrow> s = []"
  by (simp add: lit_def)



lemma download_nopydub:
  "download_audio env_nopydub (audio_url episode7) (temp_dir config0) (number episode7) (files world0)
     = (Inr raw7, Map.empty(raw7 \<mapsto> written (30 * 1024 * 1024)))"
  by (simp add: download_audio_def Let_def env_nopydub_def env_ok_def episode7_def config0_def
        world0_def raw7_def DOWNLOAD_RETRIES_def upt_rec)

lemma split_nopydub:
  "split_audio_if_needed env_nopydub raw7 (Map.empty(raw7 \<mapsto> written (30 * 1024 * 1024)))
     = (Inl (RuntimeError (lit ''pydub is required for audio chunking: pip install pydub'')),
        Map.empty(raw7 \<mapsto> written (30 * 1024 * 1024)))"
  by (simp add: split_audio_if_needed_def env_nopydub_def env_ok_def written_def
        WHISPER_MAX_BYTES_def)




lemma cleanup_audio_apply:
  "cleanup_audio paths fs q = (if q \<in> set paths then None else fs q)"
  unfolding cleanup_audio_def by (induction paths arbitrary: fs) auto

lemma try_block_after_split:
  assumes d: "download_audio ev (audio_url ep) (temp_dir config) (number ep) (files w) = (Inr raw, fs1)"
    and s: "split_audio_if_needed ev raw fs1 = (Inr paths, fs2)"
  shows "fst (try_block ev ep config w) = paths
       \<and> files (snd (snd (try_block ev ep config w))) = fs2"
proof (cases "transcribe ev paths fs2")
  case (Inl e)
  with try_block_transcribe_fails [OF d s] show ?thesis by simp
next
  case (Inr transcript)
  note t = this
  show ?thesis
  proof (cases "extract_insights ev transcript (title ep) (description ep)")
    case (Inl e)
    with try_block_extract_fails [OF d s t] show ?thesis by simp
  next
    case (Inr ins)
    note i = this
    obtain p calls where p: "create_episode_page ev ep ins (notion_database_id config) = (p, calls)"
      by (cases "create_episode_page ev ep ins (notion_database_id config)")
    show ?thesis
    proof (cases p)
      case (Inl e)
      with p try_block_publish_fails [OF d s t i, of e calls] show ?thesis by simp
    next
      case (Inr url)
      with p try_block_published [OF d s t i, of url calls] show ?thesis by simp
    qed
  qed
qed

lemma cleanup_when_split_returns:
  assumes d: "download_audio ev (audio_url ep) (temp_dir config) (number ep) (files w) = (Inr raw, fs1)"
    and s: "split_audio_if_needed ev raw fs1 = (Inr paths, fs2)"
  shows "files (process_episode ev ep config w) raw = None
       \<and> (\<forall>p \<in> set paths. files (process_episode ev ep config w) p = None)"
proof -
  from try_block_after_split [OF d s]
  have a: "fst (try_block ev ep config w) = paths"
    and f: "files (snd (snd (try_block ev ep config w))) = fs2" by simp_all
  have pe: "files (process_episode ev ep config w) q = (if q \<in> set paths then None else fs2 q)" for q
    using a f by (cases "try_block ev ep config w")
                 (auto simp: process_episode_def cleanup_audio_apply)
  from download_audio_file [OF d] obtain n where n: "fs1 raw = Some (written n)" by blast
  have raw: "raw \<in> set paths \<or> fs2 raw = None"
  proof (cases "st_size (written n) \<le> WHISPER_MAX_BYTES")
    case True
    from split_small [of fs1 raw "written n" ev] n True s show ?thesis by simp
  next
    case False
    then have big: "WHISPER_MAX_BYTES < st_size (written n)" by simp
    from split_large_Inr [of fs1 raw "written n" ev paths fs2] n big s
    obtain len where "pydub_installed ev" "from_file ev raw = Some len"
      "\<forall>i < chunk_count len. export ev i \<noteq> None" by blast
    from split_large_ok [of fs1 raw "written n" ev len] n big this s
    show ?thesis by auto
  qed
  from pe raw show ?thesis by auto
qed

lemma download_left_when_split_fails:
  assumes d: "download_audio ev (audio_url ep) (temp_dir config) (number ep) (files w) = (Inr raw, fs1)"
    and s: "split_audio_if_needed ev raw fs1 = (Inl e, fs2)"
  shows "files (process_episode ev ep config w) = fs2"
  using try_block_split_fails [OF d s] by (simp add: process_episode_def)

text \<open>
  Claim C1.  The cleanup of the \<open>finally\<close> clause deletes the paths of the variable
  \<open>audio_paths\<close>, which is assigned only when \<open>split_audio_if_needed\<close> returns.  When
  splitting has returned, no downloaded file and no chunk of the episode is left
  (\<open>cleanup_when_split_returns\<close>).  When splitting raises after a successful download, no
  file is deleted (\<open>download_left_when_split_fails\<close>): for episode 7 with a download of
  30 MB and pydub not installed, the run fails at the splitting stage and the downloaded
  file is still on disk when \<open>_process_episode\<close> returns.
\<close>

theorem process_episode_leaves_download:
  "fst (snd (try_block env_nopydub episode7 config0 world0))
     = Inl (RuntimeError (lit ''pydub is required for audio chunking: pip install pydub''))
   \<and> files (process_episode env_nopydub episode7 config0 world0) raw7
     = Some (written (30 * 1024 * 1024))"
  using try_block_split_fails [OF download_nopydub split_nopydub]
  by (simp add: process_episode_def)

section \<open>Properties of target selection and of a run\<close>

lemma slice_to_nonneg: "0 \<le> l \<Longrightarrow> slice_to l xs = take (nat l) xs"
  by (simp add: slice_to_def)

lemma select_targets_explicit:
  "opt_episode a = Some n \<Longrightarrow> select_targets a episodes st = filter (\<lambda>ep. number ep = n) episodes"
  by (simp add: select_targets_def)

lemma select_targets_batch:
  "opt_episode a = None \<Longrightarrow>
   select_targets a episodes st =
     (case opt_limit a of None \<Rightarrow> (\<lambda>xs. xs) | Some l \<Rightarrow> slice_to l)
       (filter (\<lambda>ep. \<not> is_processed st (number ep)
                    \<and> (case opt_from_episode a of None \<Rightarrow> True | Some f \<Rightarrow> f \<le> number ep))
          episodes)"
  by (simp add: select_targets_def Let_def split: option.splits)

text \<open>
  The call of line 29 raises \<open>TypeError\<close>, whatever the environment and the options:
  \<open>database_id_override\<close> is not a parameter of \<open>load_config\<close>.  The handler of line 30
  catches \<open>ValueError\<close> only, so every run of \<open>main\<close> ends there, with the world as it was
  when the process started.
\<close>

lemma call_with_database_override:
  "call_load_config environ mkdir_ok
     [(''feed_url_override'', u), (''database_id_override'', d)] = Inl TypeError"
  by (simp add: call_load_config_def load_config_parameters_def)

lemma main_raises_TypeError:
  "main environ mkdir_ok fetch now envs a fs0 lf
     = (Uncaught TypeError, \<lparr>files = fs0, manager = StateManager_init lf, notion_calls = []\<rparr>)"
  by (simp add: main_def call_with_database_override main_from_def)

text \<open>
  Past line 29, two more exceptions would end the process with the exit code 1: the
  \<open>OSError\<close> of \<open>mkdir\<close> in \<open>load_config\<close>, and what \<open>parse_feed\<close> raises.
\<close>

lemma load_config_mkdir_fails:
  assumes "filter (\<lambda>k. \<not> truthy (environ k)) required_keys = []"
    and "\<not> mkdir_ok (get_default (environ ''TEMP_DIR'') (lit ''/tmp/podscriber''))"
  shows "load_config environ mkdir_ok u = Inl OSError"
    and "exit_code (fst (main_from (load_config environ mkdir_ok u) fetch now envs a fs0 lf)) = 1"
  using assms by (simp_all add: load_config_def Let_def main_from_def exit_code_def)

lemma main_with_config_feed_raises:
  "parse_feed now (fetch (rss_feed_url config)) = Inl e \<Longrightarrow>
   main_with_config fetch now envs a config fs0 lf
     = (Uncaught e, \<lparr>files = fs0, manager = StateManager_init lf, notion_calls = []\<rparr>)"
  by (simp add: main_with_config_def Let_def)

lemma environ_full_complete: "filter (\<lambda>k. \<not> truthy (environ_full k)) required_keys = []"
  by (simp add: environ_full_def required_keys_def truthy_def lit_def)

lemmas ledger_eval =
  is_processed_def ledger_file_124_def ledger_file_2_def StateManager_init_def load_def
  json_load_def str_int_def str_nat_digit lit_def

lemma parse_feed_seven:
  "parse_feed now2025 feed_seven = Inr (map (\<lambda>d. \<lparr>number = d, title = lit ''T'',
     published = [2024, 1, d, 0, 0, 0], audio_url = lit ''a.mp3'', description = [],
     podcast_name = lit ''Pod''\<rparr>) [1, 2, 3, 4, 5, 6, 7])"
  by (simp add: feed_seven_def entry_of_day_def feed_eval upt_rec)

text \<open>
  What lines 41 to 52 compute from the feed of seven episodes, a ledger that holds 1, 2
  and 4 and the options \<open>--from 5 --limit 2\<close>, and from the feed of three episodes, a
  ledger that holds 2 and the option \<open>--episode 2\<close>; no run of \<open>main\<close> gets there.
\<close>

lemma selection_from5_limit2:
  "map number (select_targets from5_limit2 (projr (parse_feed now2025 feed_seven))
     (StateManager_init ledger_file_124)) = [5, 6]"
  by (simp add: parse_feed_seven select_targets_def from5_limit2_def no_options_def slice_to_def
        ledger_eval)

lemma selection_episode2:
  "map title (select_targets episode2 (projr (parse_feed now2025 feed_CAB))
     (StateManager_init ledger_file_2)) = [lit ''B'']"
  by (simp add: select_targets_def episode2_def no_options_def feed_CAB_def feed_eval upt_rec)

text \<open>
  Claim C6.  A batch run with the options \<open>--from 5 --limit 2\<close>, every required variable
  set, a feed of seven episodes and a ledger file that holds the episodes 1, 2 and 4: the
  episodes that the ledger does not mark processed are 3, 5, 6 and 7, and the claim
  requires the targets 5 and 6.  \<open>main\<close> ends at line 29 with the \<open>TypeError\<close>, before the
  ledger and the feed are read: no target is selected, no page is created and the ledger
  is the one of the file.
\<close>

theorem batch_run_raises:
  "filter (\<lambda>k. \<not> truthy (environ_full k)) required_keys = []
   \<and> map number (projr (parse_feed now2025 (fetch_seven (the (environ_full ''RSS_FEED_URL'')))))
       = [1, 2, 3, 4, 5, 6, 7]
   \<and> map number (filter (\<lambda>ep. \<not> is_processed (StateManager_init ledger_file_124) (number ep))
         (projr (parse_feed now2025 (fetch_seven (the (environ_full ''RSS_FEED_URL''))))))
       = [3, 5, 6, 7]
   \<and> opt_episode from5_limit2 = None
   \<and> main environ_full (\<lambda>d. True) fetch_seven now2025 envs_small from5_limit2 Map.empty
        ledger_file_124
       = (Uncaught TypeError,
          \<lparr>files = Map.empty, manager = StateManager_init ledger_file_124, notion_calls = []\<rparr>)"
proof -
  have 1: "map number (projr (parse_feed now2025 (fetch_seven (the (environ_full ''RSS_FEED_URL'')))))
       = [1, 2, 3, 4, 5, 6, 7]"
    by (simp add: fetch_seven_def parse_feed_seven)
  have 2: "map number (filter (\<lambda>ep. \<not> is_processed (StateManager_init ledger_file_124) (number ep))
         (projr (parse_feed now2025 (fetch_seven (the (environ_full ''RSS_FEED_URL''))))))
       = [3, 5, 6, 7]"
    by (simp add: fetch_seven_def parse_feed_seven ledger_eval)
  have 3: "opt_episode from5_limit2 = None"
    by (simp add: from5_limit2_def no_options_def)
  from environ_full_complete 1 2 3
    main_raises_TypeError [of environ_full "\<lambda>d. True" fetch_seven now2025 envs_small from5_limit2
      Map.empty ledger_file_124]
  show ?thesis by (intro conjI) assumption+
qed

text \<open>
  Claim C7.  A run with the option \<open>--database\<close>, every required variable set and a
  temporary directory that can be created: there is no configuration error and the claim
  requires the exit code 0.  The call of line 29 raises \<open>TypeError\<close>, which is not caught:
  the process ends with the exit code 1.  The same holds for the run without any option.
\<close>

theorem database_override_exit_code:
  "filter (\<lambda>k. \<not> truthy (environ_full k)) required_keys = []
   \<and> opt_database_id database_override = Some (lit ''db2'')
   \<and> fst (main environ_full (\<lambda>d. True) fetch_CAB now2025 envs_small database_override Map.empty None)
       = Uncaught TypeError
   \<and> exit_code (fst (main environ_full (\<lambda>d. True) fetch_CAB now2025 envs_small database_override
        Map.empty None)) = 1
   \<and> exit_code (fst (main environ_full (\<lambda>d. True) fetch_CAB now2025 envs_small no_options
        Map.empty None)) = 1"
  by (simp add: environ_full_complete main_raises_TypeError exit_code_def database_override_def
        no_options_def)

text \<open>
  Claim C10.  A run with the option \<open>--episode 2\<close>, every required variable set, a feed of
  three episodes and a ledger file that holds episode 2, recorded by an earlier run: the
  claim requires episode 2 to be selected and processed again.  \<open>main\<close> ends at line 29
  with the \<open>TypeError\<close>: no page is created, no file is written and the ledger still holds
  the record of the earlier run for episode 2, and no other.
\<close>

theorem explicit_episode_run_raises:
  "filter (\<lambda>k. \<not> truthy (environ_full k)) required_keys = []
   \<and> opt_episode episode2 = Some 2
   \<and> map number (projr (parse_feed now2025 (fetch_CAB (the (environ_full ''RSS_FEED_URL'')))))
       = [1, 2, 3]
   \<and> is_processed (StateManager_init ledger_file_2) 2
   \<and> fst (main environ_full (\<lambda>d. True) fetch_CAB now2025 envs_small episode2 Map.empty ledger_file_2)
       = Uncaught TypeError
   \<and> notion_calls (snd (main environ_full (\<lambda>d. True) fetch_CAB now2025 envs_small episode2
        Map.empty ledger_file_2)) = []
   \<and> files (snd (main environ_full (\<lambda>d. True) fetch_CAB now2025 envs_small episode2
        Map.empty ledger_file_2)) = Map.empty
   \<and> state (manager (snd (main environ_full (\<lambda>d. True) fetch_CAB now2025 envs_small episode2
        Map.empty ledger_file_2)))
       = [(lit ''2'', \<lparr>ledger_title = lit ''B'', ledger_notion_url = lit ''old'',
                        ledger_processed_at = lit ''then''\<rparr>)]"
proof -
  have 1: "opt_episode episode2 = Some 2" by (simp add: episode2_def no_options_def)
  have 2: "map number (projr (parse_feed now2025 (fetch_CAB (the (environ_full ''RSS_FEED_URL'')))))
       = [1, 2, 3]"
    by (simp add: fetch_CAB_def feed_CAB_def feed_eval upt_rec)
  have 3: "is_processed (StateManager_init ledger_file_2) 2"
    by (simp add: ledger_eval)
  have 4: "state (StateManager_init ledger_file_2)
       = [(lit ''2'', \<lparr>ledger_title = lit ''B'', ledger_notion_url = lit ''old'',
                        ledger_processed_at = lit ''then''\<rparr>)]"
    by (simp add: ledger_eval)
  note M = main_raises_TypeError [of environ_full "\<lambda>d. True" fetch_CAB now2025 envs_small episode2
      Map.empty ledger_file_2]
  from environ_full_complete 1 2 3 4 show ?thesis
    unfolding M by simp
qed

end
